theory Spec2Isabelle
  imports Complex_Main
begin

section \<open>Interrupted time series analysis: the data model\<close>

text \<open>
  The development embeds the pure parts of \<^verbatim>\<open>analysis/its.py\<close>. Python exceptions are
  values of \<open>py_error\<close>; a function that may raise returns \<open>py_error + 'a\<close>, with
  \<open>Inl\<close> for the exception.
\<close>

datatype py_error =
    ValueError string
  | IndexError string
  | KeyError string
  | OverflowError string
  | ConvergenceWarning string

text \<open>
  A pandas timestamp at midnight: the calendar day. The comparison of two timestamps is
  the lexicographic one on year, month and day.
\<close>

record timestamp =
  year :: int
  month :: int
  day :: int

definition ts_less :: "timestamp \<Rightarrow> timestamp \<Rightarrow> bool" where
  "ts_less a b =
     (year a < year b \<or>
      (year a = year b \<and> (month a < month b \<or> (month a = month b \<and> day a < day b))))"

text \<open>The calendar invariant of a timestamp that the library maintains.\<close>

definition valid_ts :: "timestamp \<Rightarrow> bool" where
  "valid_ts d = (1 \<le> month d \<and> month d \<le> 12 \<and> 1 \<le> day d \<and> day d \<le> 31)"

definition STEP_TIME_1 :: timestamp where
  "STEP_TIME_1 = \<lparr>year = 2020, month = 3, day = 1\<rparr>"

definition STEP_TIME_2 :: timestamp where
  "STEP_TIME_2 = \<lparr>year = 2021, month = 3, day = 1\<rparr>"

text \<open>
  One entry of an object column as \<^verbatim>\<open>read_csv\<close> leaves it: a number, a string, or the
  missing value.
\<close>

datatype cell = Num real | Str string | NaN

text \<open>
  A row of the measures table. The type parameter is the type of the three numeric
  columns: the entries of the file before \<^verbatim>\<open>coerce_numeric\<close>, an optional number after it
  (\<open>None\<close> is the missing value of a numeric column). The column \<^verbatim>\<open>value\<close> is the field \<open>val\<close>. Every
  other column of the table (the \<^verbatim>\<open>group_N\<close> and \<^verbatim>\<open>category_N\<close> columns) lives in the
  extension part of the record.
\<close>

record 'n obs_row =
  date :: timestamp
  name :: string
  numerator :: 'n
  denominator :: 'n
  val :: 'n

record its_row = "real option obs_row" +
  rate :: "real option"
  time :: int
  step :: int
  slope :: int
  step2 :: int
  slope2 :: int
  mar20 :: int
  april20 :: int
  index :: int

section \<open>The regressor deriver: \<^verbatim>\<open>get_its_variables\<close>\<close>

text \<open>\<^verbatim>\<open>min(pandas.to_datetime(df.date).dt.year)\<close>, for a table with at least one row.\<close>

definition min_year_of :: "(real option, 'z) obs_row_scheme list \<Rightarrow> int" where
  "min_year_of rows = fold min (map (\<lambda>r. year (date r)) (tl rows)) (year (date (hd rows)))"

text \<open>\<^verbatim>\<open>12 * (year - min_year) + month\<close>.\<close>

definition its_time :: "int \<Rightarrow> timestamp \<Rightarrow> int" where
  "its_time min_year d = 12 * (year d - min_year) + month d"

text \<open>Lines 139 to 142: the columns \<^verbatim>\<open>rate\<close> and \<^verbatim>\<open>time\<close> of one row.\<close>

definition with_time :: "int \<Rightarrow> (real option, 'z) obs_row_scheme \<Rightarrow> 'z its_row_scheme" where
  "with_time min_year r =
     \<lparr>date = date r, name = name r, numerator = numerator r, denominator = denominator r,
      val = val r,
      rate = map_option (\<lambda>v. 1000 * v) (val r),
      time = its_time min_year (date r),
      step = 0, slope = 0, step2 = 0, slope2 = 0, mar20 = 0, april20 = 0, index = 0,
      \<dots> = obs_row.more r\<rparr>"

text \<open>Lines 146 to 156: the row-wise lambdas, given the two cutoff month indices.\<close>

definition with_regressors :: "int \<Rightarrow> int \<Rightarrow> 'z its_row_scheme \<Rightarrow> 'z its_row_scheme" where
  "with_regressors cutmonth1 cutmonth2 x =
     x\<lparr>step := (if time x > cutmonth1 then 1 else 0),
       slope := max (time x - cutmonth1) 0,
       step2 := (if time x > cutmonth2 then 1 else 0),
       slope2 := max (time x - cutmonth2) 0,
       mar20 := (if time x = cutmonth1 + 1 then 1 else 0),
       april20 := (if time x = cutmonth1 + 2 then 1 else 0),
       index := time x\<rparr>"

text \<open>
  \<^verbatim>\<open>df[df["date"] == cutdate].iloc[0].time - 1\<close>: the first row at the cutoff date; with
  no such row \<^verbatim>\<open>iloc[0]\<close> raises IndexError.
\<close>

definition cutmonth :: "'z its_row_scheme list \<Rightarrow> timestamp \<Rightarrow> py_error + int" where
  "cutmonth df cutdate =
     (case filter (\<lambda>r. date r = cutdate) df of
        [] \<Rightarrow> Inl (IndexError ''single positional indexer is out-of-bounds'')
      | r # _ \<Rightarrow> Inr (time r - 1))"

text \<open>
  The whole function. \<^verbatim>\<open>min\<close> of an empty sequence raises ValueError before anything
  else is computed.
\<close>

definition get_its_variables ::
  "(real option, 'z) obs_row_scheme list \<Rightarrow> timestamp \<Rightarrow> timestamp
     \<Rightarrow> py_error + 'z its_row_scheme list" where
  "get_its_variables dataframe cutdate1 cutdate2 =
     (if dataframe = [] then Inl (ValueError ''min() arg is an empty sequence'')
      else
        let min_year = min_year_of dataframe;
            df = map (with_time min_year) dataframe
        in case cutmonth df cutdate1 of
             Inl e \<Rightarrow> Inl e
           | Inr cutmonth1 \<Rightarrow>
               (case cutmonth df cutdate2 of
                  Inl e \<Rightarrow> Inl e
                | Inr cutmonth2 \<Rightarrow> Inr (map (with_regressors cutmonth1 cutmonth2) df)))"

section \<open>Calendar successor, for the gap-free series of the specification\<close>

text \<open>
  The month after a given one, on the same day of the month: the step between two
  consecutive rows of a gap-free monthly series.
\<close>

definition next_month :: "timestamp \<Rightarrow> timestamp" where
  "next_month d =
     (if month d = 12 then d\<lparr>year := year d + 1, month := 1\<rparr> else d\<lparr>month := month d + 1\<rparr>)"

section \<open>The counterfactual projector: \<^verbatim>\<open>plot_cf\<close>\<close>

text \<open>
  Lines 429 to 435: the no-intervention counterfactual table sets six columns to zero.
  Lines 442 to 444: the no-second-intervention table sets two.
\<close>

definition cf_row :: "'z its_row_scheme \<Rightarrow> 'z its_row_scheme" where
  "cf_row x = x\<lparr>slope := 0, step := 0, mar20 := 0, april20 := 0, slope2 := 0, step2 := 0\<rparr>"

definition cf2_row :: "'z its_row_scheme \<Rightarrow> 'z its_row_scheme" where
  "cf2_row x = x\<lparr>slope2 := 0, step2 := 0\<rparr>"

text \<open>
  The fitted model's prediction is a parameter \<open>predict\<close>: the value predicted for the
  row at a position of the table. It reads the columns of that row and the harmonic
  columns that \<^verbatim>\<open>get_model\<close> attached at that position; the counterfactual tables are
  copies of the table, so the harmonic columns are the same in all three.
\<close>

definition get_prediction :: "(nat \<Rightarrow> 'z its_row_scheme \<Rightarrow> 'p) \<Rightarrow> 'z its_row_scheme list \<Rightarrow> 'p list" where
  "get_prediction predict df = map (\<lambda>(i, x). predict i x) (zip [0 ..< length df] df)"

text \<open>
  Lines 424 to 448 of \<^verbatim>\<open>plot_cf\<close>: the factual predictions and the two counterfactual
  predictions, at every row (the drawing code then shows the counterfactuals from their
  cutoff date onward).
\<close>

definition plot_cf ::
  "(nat \<Rightarrow> 'z its_row_scheme \<Rightarrow> 'p) \<Rightarrow> 'z its_row_scheme list \<Rightarrow> 'p list \<times> 'p list \<times> 'p list" where
  "plot_cf predict df =
     (let predictions = get_prediction predict df;
          cf_df = map cf_row df;
          cf = get_prediction predict cf_df;
          cf2_df = map cf2_row df;
          cf2 = get_prediction predict cf2_df
      in (predictions, cf, cf2))"

section \<open>Example inputs\<close>

text \<open>A four-row series that holds both cutoff dates, with one missing value.\<close>

definition ex_rows :: "real option obs_row list" where
  "ex_rows =
     [\<lparr>date = \<lparr>year = 2020, month = 2, day = 1\<rparr>, name = ''m'', numerator = Some 10,
        denominator = Some 1000, val = Some (1/100)\<rparr>,
      \<lparr>date = \<lparr>year = 2020, month = 3, day = 1\<rparr>, name = ''m'', numerator = Some 12,
        denominator = Some 1000, val = Some (3/250)\<rparr>,
      \<lparr>date = \<lparr>year = 2020, month = 4, day = 1\<rparr>, name = ''m'', numerator = None,
        denominator = Some 1000, val = None\<rparr>,
      \<lparr>date = \<lparr>year = 2021, month = 3, day = 1\<rparr>, name = ''m'', numerator = Some 15,
        denominator = Some 1000, val = Some (3/200)\<rparr>]"

text \<open>A log-linear prediction of the regressors, as a Poisson model computes.\<close>

definition ex_predict :: "nat \<Rightarrow> its_row \<Rightarrow> real" where
  "ex_predict i x =
     exp (1 / 10 * real_of_int (time x) + 2 * real_of_int (step x) + 3 * real_of_int (slope x)
            + real_of_int (mar20 x) + real_of_int (april20 x)
            + 5 * real_of_int (step2 x) + 7 * real_of_int (slope2 x) + real i)"


section \<open>The loader: \<^verbatim>\<open>coerce_numeric\<close>\<close>

text \<open>
  An entry of one of the columns \<^verbatim>\<open>numerator\<close>, \<^verbatim>\<open>denominator\<close> and \<^verbatim>\<open>value\<close> before the
  coercion. The type \<open>'n\<close> is the type of the values, other than the missing one, that a
  numeric column holds (integers, floats, the infinities).
  \<^item> \<open>Number x\<close> is a number as a numeric column holds it: an entry of a column whose
    dtype is numeric already, or a float of an object column.
  \<^item> \<open>Integer n\<close> is a Python integer of an object column.
  \<^item> \<open>Text s\<close> is a string.
  \<^item> \<open>Missing\<close> is NaN or \<^verbatim>\<open>None\<close>.
\<close>

datatype 'n entry = Number 'n | Integer int | Text string | Missing

text \<open>
  \<^verbatim>\<open>pandas.to_numeric(column, errors="coerce")\<close>. What pandas reads in a string or an
  integer depends on the column around it (the returned column is an integer column
  only when every entry is an integer), so the two readings of the library are parameters
  that take the column: \<open>parse col s\<close> is the number read in the string \<open>s\<close>, \<open>None\<close>
  when it is not a number, and \<open>read_int col n\<close> is the number that the returned column
  holds for the integer \<open>n\<close>, or the exception that converting it raises. A string that
  is not a number becomes the missing value, a number of the column's dtype stays
  itself, and a missing value stays missing.
\<close>

definition coerce_entry ::
  "('n entry list \<Rightarrow> string \<Rightarrow> 'n option) \<Rightarrow> ('n entry list \<Rightarrow> int \<Rightarrow> py_error + 'n)
     \<Rightarrow> 'n entry list \<Rightarrow> 'n entry \<Rightarrow> py_error + 'n option" where
  "coerce_entry parse read_int col e =
     (case e of
        Number x \<Rightarrow> Inr (Some x)
      | Integer n \<Rightarrow> (case read_int col n of Inl err \<Rightarrow> Inl err | Inr x \<Rightarrow> Inr (Some x))
      | Text s \<Rightarrow> Inr (parse col s)
      | Missing \<Rightarrow> Inr None)"

fun coerce_entries ::
  "('n entry list \<Rightarrow> string \<Rightarrow> 'n option) \<Rightarrow> ('n entry list \<Rightarrow> int \<Rightarrow> py_error + 'n)
     \<Rightarrow> 'n entry list \<Rightarrow> 'n entry list \<Rightarrow> py_error + 'n option list" where
  "coerce_entries parse read_int col [] = Inr []"
| "coerce_entries parse read_int col (e # es) =
     (case coerce_entry parse read_int col e of
        Inl err \<Rightarrow> Inl err
      | Inr v \<Rightarrow>
          (case coerce_entries parse read_int col es of
             Inl err \<Rightarrow> Inl err
           | Inr vs \<Rightarrow> Inr (v # vs)))"

definition to_numeric ::
  "('n entry list \<Rightarrow> string \<Rightarrow> 'n option) \<Rightarrow> ('n entry list \<Rightarrow> int \<Rightarrow> py_error + 'n)
     \<Rightarrow> 'n entry list \<Rightarrow> py_error + 'n option list" where
  "to_numeric parse read_int col = coerce_entries parse read_int col col"

text \<open>
  The function works on a copy of the table and replaces three columns, one after the
  other; every other column is carried over.
\<close>

definition coerce_numeric ::
  "('n entry list \<Rightarrow> string \<Rightarrow> 'n option) \<Rightarrow> ('n entry list \<Rightarrow> int \<Rightarrow> py_error + 'n)
     \<Rightarrow> ('n entry, 'z) obs_row_scheme list
     \<Rightarrow> py_error + ('n option, 'z) obs_row_scheme list" where
  "coerce_numeric parse read_int table =
     (case to_numeric parse read_int (map numerator table) of
        Inl err \<Rightarrow> Inl err
      | Inr ns \<Rightarrow>
          (case to_numeric parse read_int (map denominator table) of
             Inl err \<Rightarrow> Inl err
           | Inr ds \<Rightarrow>
               (case to_numeric parse read_int (map val table) of
                  Inl err \<Rightarrow> Inl err
                | Inr vs \<Rightarrow>
                    Inr (map (\<lambda>(r, n, d, v).
                                \<lparr>date = date r, name = name r,
                                 numerator = n, denominator = d, val = v,
                                 \<dots> = obs_row.more r\<rparr>)
                             (zip table (zip ns (zip ds vs)))))))"

text \<open>
  The float64 nearest to an integer, ties to the even mantissa: what CPython's
  conversion of an integer to a float computes, which raises OverflowError when
  the result is beyond the float64 range.
\<close>

fun bit_length :: "nat \<Rightarrow> nat" where
  "bit_length n = (if n = 0 then 0 else Suc (bit_length (n div 2)))"

declare bit_length.simps [simp del]

definition float64_of_int :: "int \<Rightarrow> real" where
  "float64_of_int n =
     (let a = nat \<bar>n\<bar>; l = bit_length a in
      if l \<le> 53 then real_of_int n
      else
        let e = l - 53; q = a div 2 ^ e; r = a mod 2 ^ e; h = 2 ^ (e - 1);
            q' = (if h < r \<or> (r = h \<and> odd q) then q + 1 else q)
        in real_of_int (sgn n) * real (q' * 2 ^ e))"

text \<open>
  The readings of the library on a column that becomes a float64 column (one that holds
  a missing value, a float or a string that is not an integer), for the examples: every
  integer becomes its float64, and the strings \<^verbatim>\<open>12\<close> and \<^verbatim>\<open>0.5\<close> are numbers.
\<close>

definition ex_read_int :: "real entry list \<Rightarrow> int \<Rightarrow> py_error + real" where
  "ex_read_int col n =
     (if 2 ^ 1024 \<le> \<bar>float64_of_int n\<bar>
      then Inl (OverflowError ''int too large to convert to float'')
      else Inr (float64_of_int n))"

definition ex_parse :: "real entry list \<Rightarrow> string \<Rightarrow> real option" where
  "ex_parse col s = (if s = ''12'' then Some 12 else if s = ''0.5'' then Some (1/2) else None)"

text \<open>
  A table with a redacted entry, a numeric string and a misspelt entry, and a table
  whose first numerator is the integer \<open>2 ^ 53 + 1\<close>, beside a redacted one.
\<close>

definition ex_table :: "real entry obs_row list" where
  "ex_table =
     [\<lparr>date = \<lparr>year = 2020, month = 2, day = 1\<rparr>, name = ''m'', numerator = Text ''12'',
        denominator = Number 1000, val = Text ''[REDACTED]''\<rparr>,
      \<lparr>date = \<lparr>year = 2020, month = 3, day = 1\<rparr>, name = ''m'', numerator = Missing,
        denominator = Text ''oops'', val = Text ''0.5''\<rparr>,
      \<lparr>date = \<lparr>year = 2020, month = 4, day = 1\<rparr>, name = ''m'', numerator = Integer 7,
        denominator = Number 1000, val = Number 0\<rparr>]"

definition ex_big_table :: "real entry obs_row list" where
  "ex_big_table =
     [\<lparr>date = \<lparr>year = 2020, month = 2, day = 1\<rparr>, name = ''m'',
        numerator = Integer 9007199254740993, denominator = Number 1000, val = Number 1\<rparr>,
      \<lparr>date = \<lparr>year = 2020, month = 3, day = 1\<rparr>, name = ''m'',
        numerator = Text ''[REDACTED]'', denominator = Number 1000, val = Missing\<rparr>]"

section \<open>The model fitter: \<^verbatim>\<open>get_regression\<close>\<close>

text \<open>
  What the code reads of a fitted model: the coefficient names (the index of
  \<^verbatim>\<open>model.params\<close>), the coefficients on the log scale, the bounds of
  \<^verbatim>\<open>model.conf_int()\<close> in the same order, and \<^verbatim>\<open>mle_retvals["converged"]\<close>.
\<close>

record fitted_model =
  coef_index :: "string list"
  params :: "real list"
  conf_int :: "(real \<times> real) list"
  converged :: bool

text \<open>The keyword arguments of the call \<^verbatim>\<open>smf.poisson(formula, ...).fit(...)\<close>.\<close>

record fit_call =
  fit_formula :: string
  cov_type :: string
  maxlags :: int
  time_is_index :: bool
  maxiter :: int

text \<open>
  Lines 70 to 85: the call that \<^verbatim>\<open>get_regression\<close> makes. Only the panel call passes the
  table's index as \<^verbatim>\<open>cov_kwds["time"]\<close>.
\<close>

definition regression_call :: "int \<Rightarrow> string \<Rightarrow> string option \<Rightarrow> fit_call" where
  "regression_call lags formula interaction_group =
     (if interaction_group = None
      then \<lparr>fit_formula = formula, cov_type = ''HAC'', maxlags = lags,
            time_is_index = False, maxiter = 200\<rparr>
      else \<lparr>fit_formula = formula, cov_type = ''hac-groupsum'', maxlags = lags,
            time_is_index = True, maxiter = 200\<rparr>)"

text \<open>
  The maximum-likelihood fit of statsmodels is the parameter \<open>fit\<close>: from the table (with
  its \<^verbatim>\<open>denominator\<close> column as exposure) and the call it returns a fitted model or raises.
  The function prints the summary, then raises when the fit did not converge.
\<close>

definition get_regression ::
  "('df \<Rightarrow> fit_call \<Rightarrow> py_error + 'm fitted_model_scheme) \<Rightarrow> 'df \<Rightarrow> int \<Rightarrow> string
     \<Rightarrow> string option \<Rightarrow> py_error + 'm fitted_model_scheme" where
  "get_regression fit df lags formula interaction_group =
     (case fit df (regression_call lags formula interaction_group) of
        Inl e \<Rightarrow> Inl e
      | Inr model_errors \<Rightarrow>
          if \<not> converged model_errors then Inl (ConvergenceWarning ''Failed to converge'')
          else Inr model_errors)"

text \<open>A one-coefficient model, and a fit that converges only with two lags.\<close>

definition ex_model :: fitted_model where
  "ex_model = \<lparr>coef_index = [''step''], params = [1], conf_int = [(0, 2)], converged = True\<rparr>"

definition ex_fit :: "unit \<Rightarrow> fit_call \<Rightarrow> py_error + fitted_model" where
  "ex_fit df c = Inr (ex_model\<lparr>converged := (maxlags c = 2)\<rparr>)"

section \<open>The inference extractor: \<^verbatim>\<open>get_ci_df\<close>\<close>

text \<open>
  The columns of a row of the returned table. The table is a list of pairs of an index
  entry (the coefficient name) and its columns.
\<close>

record ci_cols =
  coef :: real
  lci :: real
  uci :: real
  error :: real
  pcnt :: string

text \<open>\<^verbatim>\<open>100 * (numpy.exp(x) - 1)\<close>, over the reals.\<close>

definition pcnt_of_log :: "real \<Rightarrow> real" where
  "pcnt_of_log x = 100 * (exp x - 1)"

text \<open>
  The function, row by row. Line 281 adds the column \<^verbatim>\<open>error\<close> to the table; line 282
  then maps the whole table, this column with the other three. The rounding of a number
  to \<open>round_to\<close> places and its printing, \<^verbatim>\<open>round(x, round_to).astype(str)\<close>, is the
  parameter \<open>round_str\<close>.
\<close>

definition get_ci_df ::
  "(int \<Rightarrow> real \<Rightarrow> string) \<Rightarrow> 'm fitted_model_scheme \<Rightarrow> int \<Rightarrow> (string \<times> ci_cols) list" where
  "get_ci_df round_str model round_to =
     map (\<lambda>(k, c, (l, u)).
            let e = c - l;
                c' = pcnt_of_log c; l' = pcnt_of_log l; u' = pcnt_of_log u;
                e' = pcnt_of_log e
            in (k, \<lparr>coef = c', lci = l', uci = u', error = e',
                     pcnt = round_str round_to c' @ ''% ('' @ round_str round_to l' @ ''% to ''
                              @ round_str round_to u' @ ''%)''\<rparr>))
         (zip (coef_index model) (zip (params model) (conf_int model)))"

section \<open>Python string operations\<close>

text \<open>\<^verbatim>\<open>s.split(sep)\<close> for a one-character separator: one more part than separators.\<close>

fun split_on :: "char \<Rightarrow> string \<Rightarrow> string list" where
  "split_on sep [] = [[]]"
| "split_on sep (c # cs) =
     (if c = sep then [] # split_on sep cs
      else (case split_on sep cs of
              p # ps \<Rightarrow> (c # p) # ps
            | [] \<Rightarrow> [[c]]))"

text \<open>\<^verbatim>\<open>s.rstrip(chars)\<close> and \<^verbatim>\<open>s.strip(chars)\<close>, with the characters to strip as a predicate.\<close>

definition rstrip :: "(char \<Rightarrow> bool) \<Rightarrow> string \<Rightarrow> string" where
  "rstrip P s = rev (dropWhile P (rev s))"

definition strip :: "(char \<Rightarrow> bool) \<Rightarrow> string \<Rightarrow> string" where
  "strip P s = dropWhile P (rstrip P s)"

text \<open>
  \<^verbatim>\<open>re.search("T.", s)\<close>, which is what \<^verbatim>\<open>str.contains("T.")\<close> computes: the pattern is a
  regular expression, and its dot matches any character but a newline.
\<close>

fun contains_T_dot :: "string \<Rightarrow> bool" where
  "contains_T_dot (c # d # cs) = ((c = CHR ''T'' \<and> d \<noteq> CHR 0x0A) \<or> contains_T_dot (d # cs))"
| "contains_T_dot _ = False"

section \<open>The forest table: \<^verbatim>\<open>pcnt_change\<close>\<close>

text \<open>
  Lines 318 to 324, the body of the loop for one key. The unpacking \<^verbatim>\<open>x, y = key.split(".")\<close>
  raises ValueError unless the split has exactly two parts.
\<close>

definition split_key :: "string \<Rightarrow> py_error + string \<times> string" where
  "split_key key =
     (case split_on CHR ''.'' key of
        [x, y] \<Rightarrow>
          Inr (if CHR '':'' \<in> set x
               then (case split_on CHR '':'' x of p # _ \<Rightarrow> p | [] \<Rightarrow> [])
               else ''baseline'',
               rstrip (\<lambda>c. c = CHR '']'') y)
      | [_] \<Rightarrow> Inl (ValueError ''not enough values to unpack (expected 2, got 1)'')
      | _ \<Rightarrow> Inl (ValueError ''too many values to unpack (expected 2)''))"

text \<open>Lines 316 to 324: the loop over the keys stops at the first key that raises.\<close>

fun key_indices :: "string list \<Rightarrow> py_error + (string \<times> string) list" where
  "key_indices [] = Inr []"
| "key_indices (key # keys) =
     (case split_key key of
        Inl e \<Rightarrow> Inl e
      | Inr ind \<Rightarrow>
          (case key_indices keys of
             Inl e \<Rightarrow> Inl e
           | Inr indices \<Rightarrow> Inr (ind # indices)))"

text \<open>The columns of the returned table: those of \<^verbatim>\<open>get_ci_df\<close> and \<^verbatim>\<open>category\<close>.\<close>

record forest_cols = ci_cols +
  category :: string

text \<open>
  Lines 313 to 329. Lines 306 to 312 call \<^verbatim>\<open>get_model\<close> and read the category name off
  its table: the fitted model and that name (\<open>category_label\<close>) are the arguments here. The index of the
  returned table is the pair (\<^verbatim>\<open>change\<close>, \<^verbatim>\<open>group\<close>).
\<close>

definition pcnt_change ::
  "(int \<Rightarrow> real \<Rightarrow> string) \<Rightarrow> 'm fitted_model_scheme \<Rightarrow> string
     \<Rightarrow> py_error + ((string \<times> string) \<times> forest_cols) list" where
  "pcnt_change round_str model category_label =
     (let df = get_ci_df round_str model 2;
          df = filter (\<lambda>(key, r). contains_T_dot key) df;
          keys = map fst df
      in case key_indices keys of
           Inl e \<Rightarrow> Inl e
         | Inr indices \<Rightarrow>
             Inr (map (\<lambda>(ind, (key, r)).
                         (ind, \<lparr>coef = coef r, lci = lci r, uci = uci r, error = error r,
                                pcnt = pcnt r, category = category_label\<rparr>))
                      (zip indices df)))"

text \<open>
  The specification's test for an interaction-term row: its name holds a cross term,
  written with a colon.
\<close>

definition is_cross_term :: "string \<Rightarrow> bool" where
  "is_cross_term key = (CHR '':'' \<in> set key)"

text \<open>
  The coefficient names of a model with a two-level grouping column, and a printing of
  numbers that shows none of them.
\<close>

definition ex_group_model :: fitted_model where
  "ex_group_model =
     \<lparr>coef_index = [''Intercept'', ''group_0[T.B]'', ''time'', ''step'', ''step:group_0[T.B]''],
      params = [0, 1, 0, 0, 1],
      conf_int = [(0, 0), (0, 2), (0, 0), (0, 0), (0, 2)],
      converged = True\<rparr>"

text \<open>A model whose grouping level is the label \<^verbatim>\<open>3.0\<close>.\<close>

definition ex_dotted_model :: fitted_model where
  "ex_dotted_model =
     \<lparr>coef_index = [''Intercept'', ''group_0[T.3.0]''],
      params = [0, 1], conf_int = [(0, 0), (0, 2)], converged = True\<rparr>"

definition ex_round :: "int \<Rightarrow> real \<Rightarrow> string" where
  "ex_round n x = ''?''"

section \<open>The specification builder: \<^verbatim>\<open>get_formula\<close>\<close>

text \<open>
  A column of the table passed to \<^verbatim>\<open>get_formula\<close>: its values (\<open>None\<close> is the missing
  value) and, once it is categorical, the order of its categories.
\<close>

record 'v column =
  col_values :: "'v option list"
  categories :: "'v list option"

text \<open>\<^verbatim>\<open>Series.unique()\<close>: the distinct values in the order of their first appearance.\<close>

definition unique :: "'a list \<Rightarrow> 'a list" where
  "unique xs = rev (remdups (rev xs))"

text \<open>\<^verbatim>\<open>sep.join(xs)\<close>.\<close>

fun join :: "string \<Rightarrow> string list \<Rightarrow> string" where
  "join sep [] = []"
| "join sep [x] = x"
| "join sep (x # y # ys) = x @ sep @ join sep (y # ys)"

text \<open>
  Lines 50 to 57, the branch for a grouping column. \<^verbatim>\<open>levels.remove(reference)\<close> raises
  ValueError when the reference is not an observed value (Python's \<^verbatim>\<open>None\<close>, the
  default, never is). \<^verbatim>\<open>reorder_categories\<close> raises ValueError unless the new order
  names exactly the categories, which a missing value among the observed values breaks.
  The table is updated in place: the function returns it with the formula.
\<close>

definition interact ::
  "(string \<rightharpoonup> 'v column) \<Rightarrow> string \<Rightarrow> string \<Rightarrow> 'v option
     \<Rightarrow> py_error + string \<times> (string \<rightharpoonup> 'v column)" where
  "interact df formula interaction_group reference =
     (case df interaction_group of
        None \<Rightarrow> Inl (KeyError interaction_group)
      | Some col \<Rightarrow>
          (let levels = unique (col_values col) in
           case reference of
             None \<Rightarrow> Inl (ValueError ''list.remove(x): x not in list'')
           | Some r \<Rightarrow>
               if Some r \<notin> set levels then Inl (ValueError ''list.remove(x): x not in list'')
               else
                 let levels = Some r # remove1 (Some r) levels in
                 if None \<in> set levels
                 then Inl (ValueError
                        ''items in new_categories are not the same as in old categories'')
                 else Inr (formula @ ''+ step*'' @ interaction_group
                             @ '' + slope*'' @ interaction_group
                             @ '' + step2*'' @ interaction_group
                             @ '' + slope2*'' @ interaction_group,
                           df(interaction_group \<mapsto>
                                col\<lparr>categories := Some (List.map_filter id levels)\<rparr>))))"

text \<open>
  The whole function. \<open>fourier_terms\<close> is what iterating the argument yields: for the
  table of \<^verbatim>\<open>get_fourier\<close>, its column names \<^verbatim>\<open>s1\<close> and \<^verbatim>\<open>c1\<close>.
\<close>

definition get_formula ::
  "(string \<rightharpoonup> 'v column) \<Rightarrow> string list option \<Rightarrow> string option \<Rightarrow> 'v option
     \<Rightarrow> py_error + string \<times> (string \<rightharpoonup> 'v column)" where
  "get_formula df fourier_terms interaction_group reference =
     (let formula = ''numerator ~ time + step + slope + mar20 + april20 + step2 + slope2'' in
      case (case interaction_group of
              None \<Rightarrow> Inr (formula, df)
            | Some g \<Rightarrow> interact df formula g reference) of
        Inl e \<Rightarrow> Inl e
      | Inr (formula, df) \<Rightarrow>
          (case fourier_terms of
             None \<Rightarrow> Inr (formula, df)
           | Some ts \<Rightarrow> Inr (formula @ ''+ '' @ join ''+'' ts, df)))"

text \<open>A table whose grouping column has three levels, first seen in the order B, A, C.\<close>

definition ex_frame :: "string \<rightharpoonup> string column" where
  "ex_frame =
     [''group_0'' \<mapsto>
        \<lparr>col_values = [Some ''B'', Some ''A'', Some ''B'', Some ''C'', Some ''A''],
         categories = None\<rparr>]"

text \<open>
  The regressor list that a formula string denotes: the terms of its right-hand side,
  which are separated by \<^verbatim>\<open>+\<close>, without the blanks around them.
\<close>

definition formula_terms :: "string \<Rightarrow> string list" where
  "formula_terms formula =
     map (strip (\<lambda>c. c = CHR '' ''))
       (split_on CHR ''+'' (drop 1 (dropWhile (\<lambda>c. c \<noteq> CHR ''~'') formula)))"

section \<open>The flag relabelling of \<^verbatim>\<open>get_model\<close>\<close>

text \<open>A column with its dtype: bool, numeric (\<open>None\<close> is NaN), or object.\<close>

datatype series =
    BoolSeries "bool list"
  | NumSeries "real option list"
  | ObjSeries "cell list"

text \<open>
  \<^verbatim>\<open>int(s)\<close> for a string: surrounding whitespace is dropped, a sign may come first, and
  the rest is decimal digits, with single underscores allowed between digits.
\<close>

definition py_isspace :: "char \<Rightarrow> bool" where
  "py_isspace c =
     (c \<in> set [CHR '' '', CHR 0x09, CHR 0x0A, CHR 0x0B, CHR 0x0C, CHR 0x0D,
               CHR 0x1C, CHR 0x1D, CHR 0x1E, CHR 0x1F])"

definition is_digit :: "char \<Rightarrow> bool" where
  "is_digit c = (c \<in> set ''0123456789'')"

definition digits_val :: "string \<Rightarrow> int" where
  "digits_val ds = foldl (\<lambda>n c. 10 * n + (int (of_char c) - 48)) 0 ds"

definition py_int :: "string \<Rightarrow> py_error + int" where
  "py_int s =
     (let t = strip py_isspace s;
          (sgn, body) =
            (case t of
               c # r \<Rightarrow> if c = CHR ''-'' then (- 1, r) else if c = CHR ''+'' then (1, r) else (1, t)
             | [] \<Rightarrow> (1, t));
          groups = split_on CHR ''_'' body
      in if list_all (\<lambda>g. g \<noteq> [] \<and> list_all is_digit g) groups
         then Inr (sgn * digits_val (concat groups))
         else Inl (ValueError ''invalid literal for int() with base 10''))"

text \<open>
  \<^verbatim>\<open>series.astype(int)\<close> on an object column, entry by entry: a string is read by
  \<^verbatim>\<open>int\<close>, a number is truncated toward zero, a missing value raises ValueError.
\<close>

definition cell_to_int :: "cell \<Rightarrow> py_error + int" where
  "cell_to_int c =
     (case c of
        Str s \<Rightarrow> py_int s
      | Num x \<Rightarrow> Inr (if 0 \<le> x then \<lfloor>x\<rfloor> else \<lceil>x\<rceil>)
      | NaN \<Rightarrow> Inl (ValueError ''cannot convert float NaN to integer''))"

fun astype_int :: "cell list \<Rightarrow> py_error + int list" where
  "astype_int [] = Inr []"
| "astype_int (c # cs) =
     (case cell_to_int c of
        Inl e \<Rightarrow> Inl e
      | Inr n \<Rightarrow> (case astype_int cs of Inl e \<Rightarrow> Inl e | Inr ns \<Rightarrow> Inr (n # ns)))"

text \<open>\<^verbatim>\<open>is_bool_as_int\<close>, branch by branch.\<close>

definition is_bool_as_int :: "series \<Rightarrow> bool" where
  "is_bool_as_int series =
     (case series of
        NumSeries xs \<Rightarrow> list_all (\<lambda>x. x = 0 \<or> x = 1) (List.map_filter id xs)
      | ObjSeries cs \<Rightarrow>
          (case astype_int cs of
             Inl e \<Rightarrow> False
           | Inr ns \<Rightarrow> list_all (\<lambda>n. n = 0 \<or> n = 1) ns)
      | BoolSeries bs \<Rightarrow> False)"

text \<open>
  The entries of a column as a row-wise \<^verbatim>\<open>apply\<close> sees them. (A bool column is never
  relabelled, and compares with numbers as 1 and 0.)
\<close>

definition cells_of :: "series \<Rightarrow> cell list" where
  "cells_of series =
     (case series of
        NumSeries xs \<Rightarrow> map (\<lambda>x. case x of Some v \<Rightarrow> Num v | None \<Rightarrow> NaN) xs
      | ObjSeries cs \<Rightarrow> cs
      | BoolSeries bs \<Rightarrow> map (\<lambda>b. Num (if b then 1 else 0)) bs)"

text \<open>Line 183: the name of the paired category column.\<close>

fun str_replace :: "string \<Rightarrow> string \<Rightarrow> string \<Rightarrow> string" where
  "str_replace old new [] = []"
| "str_replace old new (c # cs) =
     (if old \<noteq> [] \<and> take (length old) (c # cs) = old
      then new @ str_replace old new (drop (length old) (c # cs))
      else c # str_replace old new cs)"

definition interaction_category_of :: "string \<Rightarrow> string" where
  "interaction_category_of interaction_group = str_replace ''group'' ''category'' interaction_group"

text \<open>
  Lines 181 to 191, on the grouping column and the labels of the paired category
  column. The lambda compares the entry with the string \<^verbatim>\<open>"1"\<close>.
\<close>

definition relabel :: "series \<Rightarrow> string list \<Rightarrow> series" where
  "relabel grp cat =
     (let bool_as_int = is_bool_as_int grp in
      if bool_as_int
      then ObjSeries
             (map (\<lambda>(g, c). Str (if g = Str ''1'' then ''Recored '' @ c
                                  else ''No recorded '' @ c))
                  (zip (cells_of grp) cat))
      else grp)"

text \<open>
  The grouping column as \<^verbatim>\<open>get_formula\<close> reads it: \<^verbatim>\<open>get_its_variables\<close>, which runs in
  between, leaves the column as it is.
\<close>

definition column_of :: "series \<Rightarrow> cell column" where
  "column_of series =
     \<lparr>col_values = map (\<lambda>c. if c = NaN then None else Some c) (cells_of series),
      categories = None\<rparr>"

text \<open>
  Lines 180 to 199 for the grouping column: the relabelling comes first, and
  \<^verbatim>\<open>get_formula\<close> then reorders the levels of the relabelled column around the reference.
\<close>

definition get_model_formula ::
  "series \<Rightarrow> string list \<Rightarrow> string \<Rightarrow> cell option
     \<Rightarrow> py_error + string \<times> (string \<rightharpoonup> cell column)" where
  "get_model_formula grp cat interaction_group reference =
     get_formula [interaction_group \<mapsto> column_of (relabel grp cat)]
       (Some [''s1'', ''c1'']) (Some interaction_group) reference"

section \<open>Properties of the regressor deriver\<close>

lemma fold_min_Min: "fold min xs (a::int) = Min (insert a (set xs))"
proof (induction xs arbitrary: a)
  case Nil then show ?case by simp
next
  case (Cons x xs)
  have "Min (insert (min x a) (set xs)) = Min (insert a (insert x (set xs)))"
    by (cases "set xs = {}") (auto simp: min.commute min.left_commute min.assoc)
  with Cons show ?case by simp
qed

lemma min_year_of_Min:
  assumes "rows \<noteq> []"
  shows "min_year_of rows = Min (set (map (\<lambda>r. year (date r)) rows))"
proof -
  obtain r rs where "rows = r # rs" using assms by (cases rows) auto
  then show ?thesis by (simp add: min_year_of_def fold_min_Min)
qed

lemma date_with_time [simp]: "date (with_time my r) = date r"
  by (simp add: with_time_def)

lemma time_with_time [simp]: "time (with_time my r) = its_time my (date r)"
  by (simp add: with_time_def)

lemma cutmonth_found:
  assumes "cutdate \<in> set (map date rows)"
  shows "cutmonth (map (with_time my) rows) cutdate = Inr (its_time my cutdate - 1)"
proof -
  let ?f = "filter (\<lambda>r. date r = cutdate) (map (with_time my) rows)"
  from assms obtain r where r: "r \<in> set rows" "date r = cutdate" by auto
  have "with_time my r \<in> set (map (with_time my) rows)"
    using r(1) by (simp only: set_map) (rule imageI)
  moreover have "date (with_time my r) = cutdate" using r(2) by simp
  ultimately have "with_time my r \<in> set ?f" by (simp only: set_filter) blast
  then obtain x xs where f: "?f = x # xs" by (cases ?f) auto
  then have "x \<in> set ?f" by simp
  then have "x \<in> set (map (with_time my) rows)" and dx: "date x = cutdate"
    by (simp_all only: set_filter mem_Collect_eq)
  then obtain r' where x: "x = with_time my r'" by (auto simp only: set_map)
  with dx have "date r' = cutdate" by simp
  with x have "time x = its_time my cutdate" by simp
  with f show ?thesis by (simp add: cutmonth_def)
qed

lemma cutmonth_missing:
  assumes "cutdate \<notin> set (map date rows)"
  shows "\<exists>e. cutmonth (map (with_time my) rows) cutdate = Inl e"
proof -
  have "filter (\<lambda>r. date r = cutdate) (map (with_time my) rows) = []"
    using assms by (auto simp: filter_empty_conv)
  then show ?thesis by (simp add: cutmonth_def)
qed

lemma get_its_variables_ok:
  assumes "cutdate1 \<in> set (map date rows)" "cutdate2 \<in> set (map date rows)"
  shows "get_its_variables rows cutdate1 cutdate2 =
           Inr (map (with_regressors (its_time (min_year_of rows) cutdate1 - 1)
                                     (its_time (min_year_of rows) cutdate2 - 1))
                    (map (with_time (min_year_of rows)) rows))"
proof -
  have "rows \<noteq> []" using assms by auto
  then show ?thesis
    using cutmonth_found [OF assms(1)] cutmonth_found [OF assms(2)]
    by (simp add: get_its_variables_def Let_def)
qed

lemma get_its_variables_Inr:
  assumes "get_its_variables rows cutdate1 cutdate2 = Inr df"
  shows "rows \<noteq> [] \<and> cutdate1 \<in> set (map date rows) \<and> cutdate2 \<in> set (map date rows)"
proof -
  have ne: "rows \<noteq> []" using assms by (auto simp: get_its_variables_def)
  have "cutdate1 \<in> set (map date rows)"
  proof (rule ccontr)
    assume "cutdate1 \<notin> set (map date rows)"
    from cutmonth_missing [OF this] obtain e
      where "cutmonth (map (with_time (min_year_of rows)) rows) cutdate1 = Inl e" by blast
    with assms ne show False by (simp add: get_its_variables_def Let_def)
  qed
  moreover have "cutdate2 \<in> set (map date rows)"
  proof (rule ccontr)
    assume "cutdate2 \<notin> set (map date rows)"
    from cutmonth_missing [OF this] obtain e
      where "cutmonth (map (with_time (min_year_of rows)) rows) cutdate2 = Inl e" by blast
    with assms ne show False
      by (auto simp: get_its_variables_def Let_def split: sum.splits)
  qed
  ultimately show ?thesis using ne by simp
qed

lemma with_regressors_sel [simp]:
  "time (with_regressors c1 c2 x) = time x"
  "date (with_regressors c1 c2 x) = date x"
  "step (with_regressors c1 c2 x) = (if time x > c1 then 1 else 0)"
  "slope (with_regressors c1 c2 x) = max (time x - c1) 0"
  "step2 (with_regressors c1 c2 x) = (if time x > c2 then 1 else 0)"
  "slope2 (with_regressors c1 c2 x) = max (time x - c2) 0"
  "mar20 (with_regressors c1 c2 x) = (if time x = c1 + 1 then 1 else 0)"
  "april20 (with_regressors c1 c2 x) = (if time x = c1 + 2 then 1 else 0)"
  "index (with_regressors c1 c2 x) = time x"
  by (simp_all add: with_regressors_def)

text \<open>
  Claim C1. When the table has a row at each cutoff date, \<^verbatim>\<open>get_its_variables\<close> returns
  a table with the rows' dates unchanged, and with \<open>c1\<close> the \<open>time\<close> of the rows dated
  cutoff 1 minus one and \<open>c2\<close> the same for cutoff 2, every row has
  \<open>step = 1\<close> if \<open>time > c1\<close> else 0, \<open>slope = max (time - c1) 0\<close>,
  \<open>step2 = 1\<close> if \<open>time > c2\<close> else 0, \<open>slope2 = max (time - c2) 0\<close>,
  \<open>mar20 = 1\<close> exactly when \<open>time = c1 + 1\<close> and \<open>april20 = 1\<close> exactly when
  \<open>time = c1 + 2\<close> (both 0 otherwise).
\<close>

theorem get_its_variables_regressors:
  assumes "cutdate1 \<in> set (map date dataframe)" and "cutdate2 \<in> set (map date dataframe)"
  shows "\<exists>df c1 c2.
           get_its_variables dataframe cutdate1 cutdate2 = Inr df \<and>
           map date df = map date dataframe \<and>
           (\<exists>r \<in> set df. date r = cutdate1) \<and> (\<exists>r \<in> set df. date r = cutdate2) \<and>
           (\<forall>r \<in> set df. date r = cutdate1 \<longrightarrow> c1 = time r - 1) \<and>
           (\<forall>r \<in> set df. date r = cutdate2 \<longrightarrow> c2 = time r - 1) \<and>
           (\<forall>x \<in> set df.
              step x = (if time x > c1 then 1 else 0) \<and>
              slope x = max (time x - c1) 0 \<and>
              step2 x = (if time x > c2 then 1 else 0) \<and>
              slope2 x = max (time x - c2) 0 \<and>
              mar20 x = (if time x = c1 + 1 then 1 else 0) \<and>
              april20 x = (if time x = c1 + 2 then 1 else 0))"
proof -
  define my where "my = min_year_of dataframe"
  define c1 where "c1 = its_time my cutdate1 - 1"
  define c2 where "c2 = its_time my cutdate2 - 1"
  define df where "df = map (with_regressors c1 c2) (map (with_time my) dataframe)"
  have ok: "get_its_variables dataframe cutdate1 cutdate2 = Inr df"
    unfolding df_def c1_def c2_def my_def by (rule get_its_variables_ok [OF assms])
  have dates: "map date df = map date dataframe"
    by (simp add: df_def comp_def)
  have tm: "time r = its_time my (date r)" if "r \<in> set df" for r
    using that by (auto simp: df_def)
  have regs: "step x = (if time x > c1 then 1 else 0) \<and>
              slope x = max (time x - c1) 0 \<and>
              step2 x = (if time x > c2 then 1 else 0) \<and>
              slope2 x = max (time x - c2) 0 \<and>
              mar20 x = (if time x = c1 + 1 then 1 else 0) \<and>
              april20 x = (if time x = c1 + 2 then 1 else 0)" if "x \<in> set df" for x
  proof -
    from that obtain y where "x = with_regressors c1 c2 y" by (auto simp: df_def)
    then show ?thesis by simp
  qed
  have e1: "\<exists>r \<in> set df. date r = cutdate1"
    using assms(1) dates by (metis (no_types, lifting) image_iff list.set_map)
  have e2: "\<exists>r \<in> set df. date r = cutdate2"
    using assms(2) dates by (metis (no_types, lifting) image_iff list.set_map)
  have k1: "\<forall>r \<in> set df. date r = cutdate1 \<longrightarrow> c1 = time r - 1"
    using tm by (simp add: c1_def)
  have k2: "\<forall>r \<in> set df. date r = cutdate2 \<longrightarrow> c2 = time r - 1"
    using tm by (simp add: c2_def)
  from ok dates e1 e2 k1 k2 regs show ?thesis by blast
qed


lemma ex_rows_result:
  "get_its_variables ex_rows STEP_TIME_1 STEP_TIME_2 =
     Inr (map (with_regressors 2 14) (map (with_time 2020) ex_rows))"
  by (simp add: get_its_variables_def ex_rows_def min_year_of_def cutmonth_def with_time_def
      its_time_def STEP_TIME_1_def STEP_TIME_2_def Let_def)

theorem get_its_variables_regressors_witness:
  "\<exists>df. get_its_variables ex_rows STEP_TIME_1 STEP_TIME_2 = Inr df \<and>
        map time df = [2, 3, 4, 15] \<and>
        map step df = [0, 1, 1, 1] \<and> map slope df = [0, 1, 2, 13] \<and>
        map step2 df = [0, 0, 0, 1] \<and> map slope2 df = [0, 0, 0, 1] \<and>
        map mar20 df = [0, 1, 0, 0] \<and> map april20 df = [0, 0, 1, 0]"
proof -
  have h1: "STEP_TIME_1 \<in> set (map date ex_rows)"
    by (simp add: ex_rows_def STEP_TIME_1_def)
  have h2: "STEP_TIME_2 \<in> set (map date ex_rows)"
    by (simp add: ex_rows_def STEP_TIME_2_def)
  from get_its_variables_regressors [OF h1 h2]
  obtain df :: "its_row list" where "get_its_variables ex_rows STEP_TIME_1 STEP_TIME_2 = Inr df"
    by blast
  moreover from this have "df = map (with_regressors 2 14) (map (with_time 2020) ex_rows)"
    by (simp add: ex_rows_result)
  ultimately show ?thesis
    by (simp add: ex_rows_def its_time_def)
qed

text \<open>
  Claim C7. Whenever \<^verbatim>\<open>get_its_variables\<close> returns, every row keeps its date and has
  \<open>time = 12 * (year - minimum observed year) + month\<close>; a row in January of the first
  observed year has \<open>time = 1\<close>; and where a row is dated one calendar month after the
  row before it, its \<open>time\<close> is the previous \<open>time\<close> plus one.
\<close>

theorem get_its_variables_time:
  assumes "get_its_variables dataframe cutdate1 cutdate2 = Inr df"
  shows "length df = length dataframe \<and>
         (\<forall>i < length dataframe.
            date (df ! i) = date (dataframe ! i) \<and>
            time (df ! i) =
              12 * (year (date (dataframe ! i)) - Min (set (map (\<lambda>r. year (date r)) dataframe)))
                + month (date (dataframe ! i))) \<and>
         (\<forall>r \<in> set df.
            year (date r) = Min (set (map (\<lambda>r. year (date r)) dataframe)) \<and> month (date r) = 1
              \<longrightarrow> time r = 1) \<and>
         (\<forall>i. Suc i < length dataframe \<and> date (dataframe ! Suc i) = next_month (date (dataframe ! i))
              \<longrightarrow> time (df ! Suc i) = time (df ! i) + 1)"
proof -
  define my where "my = min_year_of dataframe"
  from get_its_variables_Inr [OF assms]
  have ne: "dataframe \<noteq> []" and h1: "cutdate1 \<in> set (map date dataframe)"
    and h2: "cutdate2 \<in> set (map date dataframe)" by simp_all
  have my: "my = Min (set (map (\<lambda>r. year (date r)) dataframe))"
    unfolding my_def by (rule min_year_of_Min [OF ne])
  from get_its_variables_ok [OF h1 h2] assms
  have df: "df = map (with_regressors (its_time my cutdate1 - 1) (its_time my cutdate2 - 1))
                     (map (with_time my) dataframe)"
    by (simp add: my_def)
  have len: "length df = length dataframe" by (simp add: df)
  have row: "date (df ! i) = date (dataframe ! i) \<and> time (df ! i) = its_time my (date (dataframe ! i))"
    if "i < length dataframe" for i
    using that by (simp add: df)
  have jan: "time r = 1" if "r \<in> set df" "year (date r) = my" "month (date r) = 1" for r
  proof -
    from that(1) obtain i where "i < length df" "r = df ! i" by (auto simp: in_set_conv_nth)
    with row len that(2,3) show ?thesis by (simp add: its_time_def)
  qed
  have succ: "time (df ! Suc i) = time (df ! i) + 1"
    if "Suc i < length dataframe" "date (dataframe ! Suc i) = next_month (date (dataframe ! i))" for i
  proof -
    have "its_time my (next_month d) = its_time my d + 1" for d
      by (simp add: its_time_def next_month_def)
    with row [of i] row [of "Suc i"] that show ?thesis by simp
  qed
  from len row jan succ show ?thesis
    unfolding my [symmetric] by (simp add: its_time_def)
qed

theorem get_its_variables_time_witness:
  "\<exists>df. get_its_variables ex_rows STEP_TIME_1 STEP_TIME_2 = Inr df \<and>
     length df = 4 \<and> time (df ! 0) = 2 \<and> time (df ! 1) = time (df ! 0) + 1 \<and>
     time (df ! 2) = time (df ! 1) + 1"
proof -
  let ?df = "map (with_regressors 2 14) (map (with_time 2020) ex_rows)"
  have r: "get_its_variables ex_rows STEP_TIME_1 STEP_TIME_2 = Inr ?df"
    by (rule ex_rows_result)
  have m: "Min (set (map (\<lambda>r. year (date r)) ex_rows)) = 2020"
    by (simp add: ex_rows_def)
  have n0: "Suc 0 < length ex_rows \<and> date (ex_rows ! Suc 0) = next_month (date (ex_rows ! 0))"
    by (simp add: ex_rows_def next_month_def)
  have n1: "Suc 1 < length ex_rows \<and> date (ex_rows ! Suc 1) = next_month (date (ex_rows ! 1))"
    by (simp add: ex_rows_def next_month_def)
  note t = get_its_variables_time [OF r]
  from t have len: "length ?df = length ex_rows" by blast
  from t have "\<forall>i < length ex_rows. time (?df ! i) =
      12 * (year (date (ex_rows ! i)) - Min (set (map (\<lambda>r. year (date r)) ex_rows)))
        + month (date (ex_rows ! i))" by blast
  moreover have "0 < length ex_rows" by (simp add: ex_rows_def)
  ultimately have "time (?df ! 0) =
      12 * (year (date (ex_rows ! 0)) - Min (set (map (\<lambda>r. year (date r)) ex_rows)))
        + month (date (ex_rows ! 0))" by blast
  then have t0: "time (?df ! 0) = 2" unfolding m by (simp add: ex_rows_def)
  from t have st: "\<forall>i. Suc i < length ex_rows \<and>
        date (ex_rows ! Suc i) = next_month (date (ex_rows ! i))
          \<longrightarrow> time (?df ! Suc i) = time (?df ! i) + 1" by blast
  from st n0 have t1: "time (?df ! Suc 0) = time (?df ! 0) + 1" by blast
  from st n1 have t2: "time (?df ! Suc 1) = time (?df ! 1) + 1" by blast
  have l4: "length ?df = 4" using len by (simp add: ex_rows_def)
  from r l4 t0 t1 t2 show ?thesis
    by (intro exI [of _ ?df]) (simp only: One_nat_def numeral_2_eq_2 simp_thms)
qed

section \<open>Properties of the counterfactual projector\<close>

lemma get_prediction_nth:
  "i < length df \<Longrightarrow> get_prediction predict df ! i = predict i (df ! i)"
  by (simp add: get_prediction_def)

lemma its_time_before:
  assumes "ts_less d c" "valid_ts d" "valid_ts c" "day c = 1"
  shows "its_time my d < its_time my c"
  using assms by (auto simp: ts_less_def valid_ts_def its_time_def)

lemma cf_row_id:
  assumes "step x = 0" "slope x = 0" "mar20 x = 0" "april20 x = 0" "step2 x = 0" "slope2 x = 0"
  shows "cf_row x = x"
proof -
  have "cf_row x = x\<lparr>slope := slope x, step := step x, mar20 := mar20 x,
      april20 := april20 x, slope2 := slope2 x, step2 := step2 x\<rparr>"
    by (simp only: cf_row_def assms)
  then show ?thesis by simp
qed

lemma cf2_row_id:
  assumes "step2 x = 0" "slope2 x = 0"
  shows "cf2_row x = x"
proof -
  have "cf2_row x = x\<lparr>slope2 := slope2 x, step2 := step2 x\<rparr>"
    by (simp only: cf2_row_def assms)
  then show ?thesis by simp
qed

text \<open>
  Claim C8. For the table that \<^verbatim>\<open>get_its_variables\<close> derives with the two fixed cutoff
  dates from rows with well-formed dates: at every row dated before the first cutoff the
  no-intervention counterfactual row is the row itself, so its prediction equals the
  factual prediction; and at every row dated before the second cutoff the same holds for
  the no-second-intervention counterfactual.
\<close>

theorem plot_cf_pre_cutoff:
  assumes "get_its_variables dataframe STEP_TIME_1 STEP_TIME_2 = Inr df"
    and "list_all (\<lambda>r. valid_ts (date r)) dataframe"
    and "plot_cf predict df = (predictions, cf, cf2)"
  shows "\<forall>i < length df.
           (ts_less (date (df ! i)) STEP_TIME_1 \<longrightarrow>
              cf_row (df ! i) = df ! i \<and> cf ! i = predictions ! i) \<and>
           (ts_less (date (df ! i)) STEP_TIME_2 \<longrightarrow>
              cf2_row (df ! i) = df ! i \<and> cf2 ! i = predictions ! i)"
proof (intro allI impI)
  fix i assume i: "i < length df"
  define my where "my = min_year_of dataframe"
  define c1 where "c1 = its_time my STEP_TIME_1 - 1"
  define c2 where "c2 = its_time my STEP_TIME_2 - 1"
  from get_its_variables_Inr [OF assms(1)]
  have h1: "STEP_TIME_1 \<in> set (map date dataframe)"
    and h2: "STEP_TIME_2 \<in> set (map date dataframe)" by simp_all
  from get_its_variables_ok [OF h1 h2] assms(1)
  have df: "df = map (with_regressors c1 c2) (map (with_time my) dataframe)"
    by (simp add: my_def c1_def c2_def)
  from i have i': "i < length dataframe" by (simp add: df)
  define x where "x = df ! i"
  have xi: "x = with_regressors c1 c2 (with_time my (dataframe ! i))"
    using i' by (simp add: x_def df)
  have v: "valid_ts (date x)"
    using assms(2) i' by (simp add: xi list_all_length)
  have tx: "time x = its_time my (date x)" by (simp add: xi)
  have c12: "c1 < c2"
    by (simp add: c1_def c2_def its_time_def STEP_TIME_1_def STEP_TIME_2_def)
  have v1: "valid_ts STEP_TIME_1" "day STEP_TIME_1 = 1"
    by (simp_all add: valid_ts_def STEP_TIME_1_def)
  have v2: "valid_ts STEP_TIME_2" "day STEP_TIME_2 = 1"
    by (simp_all add: valid_ts_def STEP_TIME_2_def)
  have pr: "predictions ! i = predict i x"
    using assms(3) i by (auto simp: plot_cf_def Let_def get_prediction_nth x_def)
  have pc: "cf ! i = predict i (cf_row x)"
    using assms(3) i by (auto simp: plot_cf_def Let_def get_prediction_nth x_def)
  have pc2: "cf2 ! i = predict i (cf2_row x)"
    using assms(3) i by (auto simp: plot_cf_def Let_def get_prediction_nth x_def)
  have second: "cf2_row x = x" if "time x \<le> c2"
    using that by (intro cf2_row_id) (simp_all add: xi)
  have first: "cf_row x = x" if "time x \<le> c1"
    using that c12 by (intro cf_row_id) (simp_all add: xi)
  have a: "cf_row x = x \<and> cf ! i = predictions ! i" if "ts_less (date x) STEP_TIME_1"
  proof -
    from its_time_before [OF that v v1] have "time x \<le> c1" by (simp add: tx c1_def)
    from first [OF this] show ?thesis by (simp add: pr pc)
  qed
  have b: "cf2_row x = x \<and> cf2 ! i = predictions ! i" if "ts_less (date x) STEP_TIME_2"
  proof -
    from its_time_before [OF that v v2] have "time x \<le> c2" by (simp add: tx c2_def)
    from second [OF this] show ?thesis by (simp add: pr pc2)
  qed
  from a b show "(ts_less (date (df ! i)) STEP_TIME_1 \<longrightarrow>
              cf_row (df ! i) = df ! i \<and> cf ! i = predictions ! i) \<and>
           (ts_less (date (df ! i)) STEP_TIME_2 \<longrightarrow>
              cf2_row (df ! i) = df ! i \<and> cf2 ! i = predictions ! i)"
    unfolding x_def by blast
qed

theorem plot_cf_pre_cutoff_witness:
  "\<exists>df predictions cf cf2.
     get_its_variables ex_rows STEP_TIME_1 STEP_TIME_2 = Inr df \<and>
     plot_cf ex_predict df = (predictions, cf, cf2) \<and>
     ts_less (date (df ! 0)) STEP_TIME_1 \<and> cf ! 0 = predictions ! 0 \<and>
     ts_less (date (df ! 2)) STEP_TIME_2 \<and> cf2 ! 2 = predictions ! 2 \<and>
     cf ! 2 \<noteq> predictions ! 2"
proof -
  let ?df = "map (with_regressors 2 14) (map (with_time 2020) ex_rows)"
  obtain predictions cf cf2 where p: "plot_cf ex_predict ?df = (predictions, cf, cf2)"
    by (cases "plot_cf ex_predict ?df") auto
  have r: "get_its_variables ex_rows STEP_TIME_1 STEP_TIME_2 = Inr ?df"
    by (rule ex_rows_result)
  have v: "list_all (\<lambda>r. valid_ts (date r)) ex_rows"
    by (simp add: ex_rows_def valid_ts_def)
  note t = plot_cf_pre_cutoff [OF r v p]
  have l0: "0 < length ?df" and l2: "2 < length ?df" by (simp_all add: ex_rows_def)
  have d0: "ts_less (date (?df ! 0)) STEP_TIME_1"
    by (simp add: ex_rows_def ts_less_def STEP_TIME_1_def)
  have d2: "ts_less (date (?df ! 2)) STEP_TIME_2"
    by (simp add: ex_rows_def ts_less_def STEP_TIME_2_def)
  from t l0 d0 have e0: "cf ! 0 = predictions ! 0" by blast
  from t l2 d2 have e2: "cf2 ! 2 = predictions ! 2" by blast
  have ne: "cf ! 2 \<noteq> predictions ! 2"
    using p by (auto simp: plot_cf_def Let_def get_prediction_def ex_rows_def ex_predict_def
        cf_row_def with_regressors_def with_time_def its_time_def upt_rec numeral_2_eq_2)
  from r p d0 e0 d2 e2 ne show ?thesis by blast
qed

section \<open>Properties of the model fitter\<close>

text \<open>
  Claim C5. \<^verbatim>\<open>get_regression\<close> returns a model exactly when the fit returned it and it
  converged, so no returned model is unconverged; when the fit returns an unconverged
  model the function raises \<^verbatim>\<open>ConvergenceWarning("Failed to converge")\<close>; and the fit is
  called with \<^verbatim>\<open>maxiter = 200\<close>.
\<close>

theorem get_regression_converged:
  "(\<forall>m. get_regression fit df lags formula interaction_group = Inr m \<longleftrightarrow>
        fit df (regression_call lags formula interaction_group) = Inr m \<and> converged m) \<and>
   (\<forall>m. fit df (regression_call lags formula interaction_group) = Inr m \<and> \<not> converged m \<longrightarrow>
        get_regression fit df lags formula interaction_group =
          Inl (ConvergenceWarning ''Failed to converge'')) \<and>
   maxiter (regression_call lags formula interaction_group) = 200"
  by (auto simp: get_regression_def regression_call_def split: sum.splits)

theorem get_regression_converged_witness:
  "get_regression ex_fit () 2 ''numerator ~ time'' None = Inr ex_model \<and>
   converged ex_model \<and>
   get_regression ex_fit () 3 ''numerator ~ time'' None
     = Inl (ConvergenceWarning ''Failed to converge'')"
proof -
  note t = get_regression_converged [of ex_fit "()" 2 "''numerator ~ time''" None]
  note u = get_regression_converged [of ex_fit "()" 3 "''numerator ~ time''" None]
  have a: "ex_fit () (regression_call 2 ''numerator ~ time'' None) = Inr ex_model \<and> converged ex_model"
    by (simp add: ex_fit_def regression_call_def ex_model_def)
  have b: "ex_fit () (regression_call 3 ''numerator ~ time'' None) = Inr (ex_model\<lparr>converged := False\<rparr>)
      \<and> \<not> converged (ex_model\<lparr>converged := False\<rparr>)"
    by (simp add: ex_fit_def regression_call_def ex_model_def)
  from t a have "get_regression ex_fit () 2 ''numerator ~ time'' None = Inr ex_model" by blast
  moreover from u b have "get_regression ex_fit () 3 ''numerator ~ time'' None
     = Inl (ConvergenceWarning ''Failed to converge'')" by blast
  ultimately show ?thesis using a by blast
qed

section \<open>Properties of the inference extractor\<close>

lemma exp_one_ge_two: "(2::real) \<le> exp 1"
  using exp_ge_add_one_self [of "1::real"] by simp

lemma get_ci_df_columns:
  assumes "length (params model) = length (coef_index model)"
    and "length (conf_int model) = length (coef_index model)"
    and "i < length (coef_index model)"
  shows "fst (get_ci_df round_str model round_to ! i) = coef_index model ! i"
    and "coef (snd (get_ci_df round_str model round_to ! i))
           = 100 * (exp (params model ! i) - 1)"
    and "lci (snd (get_ci_df round_str model round_to ! i))
           = 100 * (exp (fst (conf_int model ! i)) - 1)"
    and "uci (snd (get_ci_df round_str model round_to ! i))
           = 100 * (exp (snd (conf_int model ! i)) - 1)"
    and "error (snd (get_ci_df round_str model round_to ! i))
           = 100 * (exp (params model ! i - fst (conf_int model ! i)) - 1)"
    and "pcnt (snd (get_ci_df round_str model round_to ! i))
           = round_str round_to (coef (snd (get_ci_df round_str model round_to ! i))) @ ''% (''
             @ round_str round_to (lci (snd (get_ci_df round_str model round_to ! i))) @ ''% to ''
             @ round_str round_to (uci (snd (get_ci_df round_str model round_to ! i))) @ ''%)''"
  using assms by (simp_all add: get_ci_df_def pcnt_of_log_def Let_def split: prod.splits)

text \<open>
  Claim C2, evaluated on the model with coefficient 1 and bounds 0 and 2. The claim says
  that \<^verbatim>\<open>error\<close> is the difference \<open>1 - 0\<close> of the log-scale coefficient and lower
  bound. The code returns \<open>100 * (exp 1 - 1)\<close>, the percent-change transform of that
  difference: the transform of line 282 is applied to the whole table, after the column
  \<^verbatim>\<open>error\<close> was added to it.
\<close>

theorem get_ci_df_error_transformed:
  "map (\<lambda>(k, r). error r) (get_ci_df round_str ex_model 2) = [100 * (exp 1 - 1)] \<and>
   map (\<lambda>(k, r). error r) (get_ci_df round_str ex_model 2) \<noteq> [1 - 0] \<and>
   map (\<lambda>(k, r). coef r) (get_ci_df round_str ex_model 2) = [100 * (exp 1 - 1)] \<and>
   map (\<lambda>(k, r). lci r) (get_ci_df round_str ex_model 2) = [100 * (exp 0 - 1)] \<and>
   map (\<lambda>(k, r). uci r) (get_ci_df round_str ex_model 2) = [100 * (exp 2 - 1)]"
proof -
  have "100 * (exp 1 - 1) \<noteq> (1::real)" using exp_one_ge_two by simp
  then show ?thesis
    by (simp add: get_ci_df_def ex_model_def pcnt_of_log_def Let_def)
qed

section \<open>Properties of the forest table\<close>

lemma split_on_nonempty [simp]: "split_on sep s \<noteq> []"
  by (induction s) (auto split: list.splits)

lemma split_on_Cons:
  "split_on sep (c # cs) =
     (if c = sep then [] # split_on sep cs
      else (c # hd (split_on sep cs)) # tl (split_on sep cs))"
  by (cases "split_on sep cs") simp_all

lemma length_split_on: "length (split_on sep s) = Suc (count_list s sep)"
proof (induction s)
  case Nil
  then show ?case by simp
next
  case (Cons c cs)
  have "length (tl (split_on sep cs)) = count_list cs sep" using Cons by simp
  then show ?case using Cons by (simp only: split_on_Cons) simp
qed

lemma split_on_no_sep: "sep \<notin> set s \<Longrightarrow> split_on sep s = [s]"
  by (induction s) auto

lemma split_on_append:
  "sep \<notin> set a \<Longrightarrow> split_on sep (a @ sep # b) = a # split_on sep b"
proof (induction a)
  case Nil
  then show ?case by simp
next
  case (Cons c a)
  then have "c \<noteq> sep" and "split_on sep (a @ sep # b) = a # split_on sep b" by auto
  then show ?case by simp
qed

lemma rstrip_snoc: "P c \<Longrightarrow> rstrip P (s @ [c]) = rstrip P s"
  by (simp add: rstrip_def)

lemma rstrip_id: "s = [] \<or> \<not> P (last s) \<Longrightarrow> rstrip P s = s"
  by (cases s rule: rev_cases) (auto simp: rstrip_def)

lemma contains_T_dot_append: "contains_T_dot b \<Longrightarrow> contains_T_dot (a @ b)"
proof (induction a)
  case Nil
  then show ?case by simp
next
  case (Cons c a)
  then have "contains_T_dot (a @ b)" by simp
  then show ?case by (cases "a @ b") auto
qed

lemma contains_T_dot_needs_T: "CHR ''T'' \<notin> set s \<Longrightarrow> \<not> contains_T_dot s"
  by (induction s rule: contains_T_dot.induct) auto

lemma contains_T_dot_marker: "contains_T_dot (pre @ ''[T.'' @ rest)"
  by (rule contains_T_dot_append) simp

lemma split_key_Inr_iff: "(\<exists>p. split_key key = Inr p) \<longleftrightarrow> count_list key CHR ''.'' = 1"
proof -
  have "(\<exists>p. split_key key = Inr p) \<longleftrightarrow> length (split_on CHR ''.'' key) = 2"
  proof (cases "split_on CHR ''.'' key")
    case Nil
    then show ?thesis by simp
  next
    case (Cons a as)
    note c1 = Cons
    show ?thesis
    proof (cases as)
      case Nil
      with c1 show ?thesis by (simp add: split_key_def)
    next
      case (Cons b bs)
      with c1 show ?thesis by (cases bs) (simp_all add: split_key_def)
    qed
  qed
  then show ?thesis by (simp add: length_split_on)
qed

lemma split_key_too_many:
  assumes "2 \<le> count_list key CHR ''.''"
  shows "split_key key = Inl (ValueError ''too many values to unpack (expected 2)'')"
proof -
  have "3 \<le> length (split_on CHR ''.'' key)" using assms by (simp add: length_split_on)
  then have "\<exists>a b c rest. split_on CHR ''.'' key = a # b # c # rest"
    by (auto simp: numeral_3_eq_3 Suc_le_length_iff)
  then obtain a b c rest where "split_on CHR ''.'' key = a # b # c # rest" by blast
  then show ?thesis by (simp add: split_key_def)
qed

lemma split_key_error:
  assumes "split_key key = Inl e"
  shows "\<exists>m. e = ValueError m"
proof (cases "split_on CHR ''.'' key")
  case Nil
  then show ?thesis by simp
next
  case (Cons a as)
  note c1 = Cons
  show ?thesis
  proof (cases as)
    case Nil
    with c1 assms have "e = ValueError ''not enough values to unpack (expected 2, got 1)''"
      by (simp add: split_key_def)
    then show ?thesis by (rule exI)
  next
    case (Cons b bs)
    with c1 assms have "e = ValueError ''too many values to unpack (expected 2)''"
      by (cases bs) (simp_all add: split_key_def)
    then show ?thesis by (rule exI)
  qed
qed

lemma key_indices_fails:
  "key \<in> set keys \<Longrightarrow> split_key key = Inl e \<Longrightarrow> \<exists>m. key_indices keys = Inl (ValueError m)"
proof (induction keys)
  case Nil
  then show ?case by simp
next
  case (Cons k keys)
  show ?case
  proof (cases "split_key k")
    case (Inl e')
    from split_key_error [OF Inl] obtain m where "e' = ValueError m" by blast
    with Inl show ?thesis by simp
  next
    case (Inr ind)
    with Cons.prems have "key \<noteq> k" by auto
    with Cons.prems have "key \<in> set keys" by simp
    from Cons.IH [OF this Cons.prems(2)] obtain m where "key_indices keys = Inl (ValueError m)"
      by blast
    with Inr show ?thesis by simp
  qed
qed

lemma key_indices_Inr:
  "key_indices keys = Inr indices \<Longrightarrow> map Inr indices = map split_key keys"
proof (induction keys arbitrary: indices)
  case Nil
  then show ?case by simp
next
  case (Cons k keys)
  from Cons.prems obtain ind where k: "split_key k = Inr ind"
    by (cases "split_key k") simp_all
  with Cons.prems obtain inds where r: "key_indices keys = Inr inds"
    by (cases "key_indices keys") simp_all
  with k Cons.prems have "indices = ind # inds" by simp
  with Cons.IH [OF r] k show ?case by simp
qed

lemma pcnt_change_Inr:
  assumes "pcnt_change round_str model category_label = Inr out"
  shows "\<exists>indices. key_indices (map fst (filter (\<lambda>(key, r). contains_T_dot key)
                                     (get_ci_df round_str model 2))) = Inr indices \<and>
           out = map (\<lambda>(ind, (key, r)).
                        (ind, \<lparr>coef = coef r, lci = lci r, uci = uci r, error = error r,
                               pcnt = pcnt r, category = category_label\<rparr>))
                     (zip indices (filter (\<lambda>(key, r). contains_T_dot key)
                                     (get_ci_df round_str model 2)))"
  using assms by (auto simp: pcnt_change_def Let_def split: sum.splits)

lemma pcnt_change_fails:
  assumes "(k, r) \<in> set (get_ci_df round_str model 2)" and "contains_T_dot k"
    and "count_list k CHR ''.'' \<noteq> 1"
  shows "\<exists>m. pcnt_change round_str model category_label = Inl (ValueError m)"
proof -
  let ?df = "filter (\<lambda>(key, r). contains_T_dot key) (get_ci_df round_str model 2)"
  from assms(1,2) have "(k, r) \<in> set ?df" by simp
  then have k: "k \<in> set (map fst ?df)" by force
  from assms(3) split_key_Inr_iff [of k] obtain e where "split_key k = Inl e"
    by (cases "split_key k") auto
  from key_indices_fails [OF k this] obtain m
    where "key_indices (map fst ?df) = Inl (ValueError m)" by blast
  then show ?thesis by (simp add: pcnt_change_def Let_def)
qed

lemma count_list_append: "count_list (a @ b) c = count_list a c + count_list b c"
  by (induction a) auto

lemma count_list_mem: "c \<in> set s \<Longrightarrow> 1 \<le> count_list s c"
  by (induction s) auto

text \<open>
  Claim C10. The unpacking of a key succeeds exactly when the key holds one dot. A key
  built from a level label that itself holds a dot is retained by the filter and makes
  the unpacking raise ValueError; and whenever a retained row's key does not hold
  exactly one dot, \<^verbatim>\<open>pcnt_change\<close> raises ValueError instead of returning a table.
\<close>

theorem split_key_needs_one_dot:
  "((\<exists>p. split_key key = Inr p) \<longleftrightarrow> count_list key CHR ''.'' = 1) \<and>
   (CHR ''.'' \<in> set level \<longrightarrow>
      contains_T_dot (pre @ ''[T.'' @ level @ '']'') \<and>
      split_key (pre @ ''[T.'' @ level @ '']'')
        = Inl (ValueError ''too many values to unpack (expected 2)'')) \<and>
   ((k, r) \<in> set (get_ci_df round_str model 2) \<and> contains_T_dot k \<and>
      count_list k CHR ''.'' \<noteq> 1 \<longrightarrow>
      (\<exists>m. pcnt_change round_str model category_label = Inl (ValueError m)))"
proof (intro conjI impI)
  show "(\<exists>p. split_key key = Inr p) \<longleftrightarrow> count_list key CHR ''.'' = 1"
    by (rule split_key_Inr_iff)
next
  show "contains_T_dot (pre @ ''[T.'' @ level @ '']'')"
    by (rule contains_T_dot_marker)
next
  assume "CHR ''.'' \<in> set level"
  then have "1 \<le> count_list level CHR ''.''" by (rule count_list_mem)
  then have "2 \<le> count_list (pre @ ''[T.'' @ level @ '']'') CHR ''.''"
    by (simp add: count_list_append)
  then show "split_key (pre @ ''[T.'' @ level @ '']'')
        = Inl (ValueError ''too many values to unpack (expected 2)'')"
    by (rule split_key_too_many)
next
  assume "(k, r) \<in> set (get_ci_df round_str model 2) \<and> contains_T_dot k \<and>
      count_list k CHR ''.'' \<noteq> 1"
  then show "\<exists>m. pcnt_change round_str model category_label = Inl (ValueError m)"
    using pcnt_change_fails by blast
qed

theorem split_key_needs_one_dot_witness:
  "contains_T_dot ''group_0[T.3.0]'' \<and>
   split_key ''group_0[T.3.0]'' = Inl (ValueError ''too many values to unpack (expected 2)'') \<and>
   (\<exists>m. pcnt_change ex_round ex_dotted_model ''imd'' = Inl (ValueError m)) \<and>
   (\<exists>p. split_key ''group_0[T.3]'' = Inr p)"
proof -
  let ?r = "snd (get_ci_df ex_round ex_dotted_model 2 ! 1)"
  note t = split_key_needs_one_dot [of _ "''3.0''" "''group_0''" "''group_0[T.3.0]''" ?r
      ex_round ex_dotted_model "''imd''"]
  have d: "CHR ''.'' \<in> set ''3.0''" by simp
  from t [of "''x''"] d have a: "contains_T_dot ''group_0[T.3.0]'' \<and>
      split_key ''group_0[T.3.0]'' = Inl (ValueError ''too many values to unpack (expected 2)'')"
    by simp
  have m: "(''group_0[T.3.0]'', ?r) \<in> set (get_ci_df ex_round ex_dotted_model 2)"
    by (simp add: get_ci_df_def ex_dotted_model_def Let_def)
  have c: "count_list ''group_0[T.3.0]'' CHR ''.'' \<noteq> 1" by simp
  from t [of "''x''"] m a c
  have b: "\<exists>m. pcnt_change ex_round ex_dotted_model ''imd'' = Inl (ValueError m)" by blast
  have "count_list ''group_0[T.3]'' CHR ''.'' = 1" by simp
  with t [of "''group_0[T.3]''"] have e: "\<exists>p. split_key ''group_0[T.3]'' = Inr p" by blast
  from a b e show ?thesis by blast
qed


lemma split_key_cross:
  assumes "CHR ''.'' \<notin> set t" "CHR ''.'' \<notin> set g" "CHR ''.'' \<notin> set level" "CHR '':'' \<notin> set t"
  shows "split_key (t @ '':'' @ g @ ''[T.'' @ level @ '']'')
           = Inr (t, rstrip (\<lambda>c. c = CHR '']'') level)"
proof -
  have n: "CHR ''.'' \<notin> set (t @ '':'' @ g @ ''[T'')" using assms by simp
  have "split_on CHR ''.'' ((t @ '':'' @ g @ ''[T'') @ CHR ''.'' # (level @ '']''))
          = (t @ '':'' @ g @ ''[T'') # split_on CHR ''.'' (level @ '']'')"
    by (rule split_on_append [OF n])
  moreover have "split_on CHR ''.'' (level @ '']'') = [level @ '']'']"
    using assms(3) by (intro split_on_no_sep) simp
  ultimately have s: "split_on CHR ''.'' (t @ '':'' @ g @ ''[T.'' @ level @ '']'')
      = [t @ '':'' @ g @ ''[T'', level @ '']'']" by simp
  have c: "split_on CHR '':'' (t @ CHR '':'' # (g @ ''[T'')) = t # split_on CHR '':'' (g @ ''[T'')"
    by (rule split_on_append [OF assms(4)])
  have r: "rstrip (\<lambda>c. c = CHR '']'') (level @ '']'') = rstrip (\<lambda>c. c = CHR '']'') level"
    by (simp add: rstrip_def)
  from s c r show ?thesis by (simp add: split_key_def)
qed

lemma split_key_main:
  assumes "CHR ''.'' \<notin> set g" "CHR ''.'' \<notin> set level" "CHR '':'' \<notin> set g"
  shows "split_key (g @ ''[T.'' @ level @ '']'')
           = Inr (''baseline'', rstrip (\<lambda>c. c = CHR '']'') level)"
proof -
  have n: "CHR ''.'' \<notin> set (g @ ''[T'')" using assms by simp
  have "split_on CHR ''.'' ((g @ ''[T'') @ CHR ''.'' # (level @ '']''))
          = (g @ ''[T'') # split_on CHR ''.'' (level @ '']'')"
    by (rule split_on_append [OF n])
  moreover have "split_on CHR ''.'' (level @ '']'') = [level @ '']'']"
    using assms(2) by (intro split_on_no_sep) simp
  ultimately have s: "split_on CHR ''.'' (g @ ''[T.'' @ level @ '']'')
      = [g @ ''[T'', level @ '']'']" by simp
  have r: "rstrip (\<lambda>c. c = CHR '']'') (level @ '']'') = rstrip (\<lambda>c. c = CHR '']'') level"
    by (simp add: rstrip_def)
  from s r assms(3) show ?thesis by (simp add: split_key_def)
qed

text \<open>
  Claim C3 as stated fails: the filter also retains the main-effect row of a group
  level, whose name holds no cross term, and the loop gives it the change type
  \<^verbatim>\<open>baseline\<close>.
\<close>

theorem pcnt_change_counterexample:
  "map fst (filter (\<lambda>(key, r). contains_T_dot key) (get_ci_df ex_round ex_group_model 2))
     = [''group_0[T.B]'', ''step:group_0[T.B]''] \<and>
   \<not> is_cross_term ''group_0[T.B]'' \<and>
   map_sum id (map fst) (pcnt_change ex_round ex_group_model ''autism'')
     = Inr [(''baseline'', ''B''), (''step'', ''B'')]"
  by (simp add: pcnt_change_def get_ci_df_def ex_group_model_def Let_def is_cross_term_def
      split_key_def rstrip_def)

text \<open>
  Claim C3, amended. When \<^verbatim>\<open>pcnt_change\<close> returns, its rows are the rows of
  \<^verbatim>\<open>get_ci_df\<close> whose name matches the regular expression \<^verbatim>\<open>T.\<close> (a \<^verbatim>\<open>T\<close> followed by
  any character), in order, with their columns unchanged and the category name added,
  each indexed by the decomposition of its name. A name without \<^verbatim>\<open>T\<close> is dropped. The
  names of group levels are retained: a cross term \<^verbatim>\<open>term:group[T.level]\<close> is decomposed
  into the term and the level, and a main effect \<^verbatim>\<open>group[T.level]\<close> into \<^verbatim>\<open>baseline\<close> and
  the level, the level being stripped of trailing closing brackets (which leaves a level
  that does not end in one unchanged).
\<close>

theorem pcnt_change_rows:
  "(pcnt_change round_str model category_label = Inr out \<longrightarrow>
      map (\<lambda>(ind, r). Inr ind) out
        = map (\<lambda>(key, r). split_key key)
            (filter (\<lambda>(key, r). contains_T_dot key) (get_ci_df round_str model 2)) \<and>
      map (\<lambda>(ind, r). (coef r, lci r, uci r, error r, pcnt r, category r)) out
        = map (\<lambda>(key, r). (coef r, lci r, uci r, error r, pcnt r, category_label))
            (filter (\<lambda>(key, r). contains_T_dot key) (get_ci_df round_str model 2))) \<and>
   (CHR ''T'' \<notin> set key \<longrightarrow> \<not> contains_T_dot key) \<and>
   (CHR ''.'' \<notin> set t \<union> set g \<union> set level \<and> CHR '':'' \<notin> set t \<longrightarrow>
      contains_T_dot (t @ '':'' @ g @ ''[T.'' @ level @ '']'') \<and>
      split_key (t @ '':'' @ g @ ''[T.'' @ level @ '']'')
        = Inr (t, rstrip (\<lambda>c. c = CHR '']'') level)) \<and>
   (CHR ''.'' \<notin> set g \<union> set level \<and> CHR '':'' \<notin> set g \<longrightarrow>
      contains_T_dot (g @ ''[T.'' @ level @ '']'') \<and>
      split_key (g @ ''[T.'' @ level @ '']'')
        = Inr (''baseline'', rstrip (\<lambda>c. c = CHR '']'') level)) \<and>
   (level = [] \<or> last level \<noteq> CHR '']'' \<longrightarrow> rstrip (\<lambda>c. c = CHR '']'') level = level)"
proof (intro conjI impI)
  assume a: "pcnt_change round_str model category_label = Inr out"
  let ?df = "filter (\<lambda>(key, r). contains_T_dot key) (get_ci_df round_str model 2)"
  from pcnt_change_Inr [OF a] obtain indices
    where k: "key_indices (map fst ?df) = Inr indices"
      and o: "out = map (\<lambda>(ind, (key, r)).
                        (ind, \<lparr>coef = coef r, lci = lci r, uci = uci r, error = error r,
                               pcnt = pcnt r, category = category_label\<rparr>))
                     (zip indices ?df)" by blast
  from key_indices_Inr [OF k] have m: "map Inr indices = map split_key (map fst ?df)" .
  then have l: "length indices = length ?df" by (metis length_map)
  have "map (\<lambda>(ind, r). Inr ind) out = map Inr indices"
    unfolding o using l by (auto simp: list_eq_iff_nth_eq case_prod_unfold)
  also have "\<dots> = map (\<lambda>(key, r). split_key key) ?df"
    using m by (simp add: case_prod_unfold comp_def)
  finally show "map (\<lambda>(ind, r). Inr ind) out = map (\<lambda>(key, r). split_key key) ?df" .
  show "map (\<lambda>(ind, r). (coef r, lci r, uci r, error r, pcnt r, category r)) out
        = map (\<lambda>(key, r). (coef r, lci r, uci r, error r, pcnt r, category_label)) ?df"
    unfolding o using l by (auto simp: list_eq_iff_nth_eq case_prod_unfold)
next
  assume "CHR ''T'' \<notin> set key"
  then show "\<not> contains_T_dot key" by (rule contains_T_dot_needs_T)
next
  show "contains_T_dot (t @ '':'' @ g @ ''[T.'' @ level @ '']'')"
    using contains_T_dot_marker [of "t @ '':'' @ g"] by simp
next
  assume "CHR ''.'' \<notin> set t \<union> set g \<union> set level \<and> CHR '':'' \<notin> set t"
  then show "split_key (t @ '':'' @ g @ ''[T.'' @ level @ '']'')
        = Inr (t, rstrip (\<lambda>c. c = CHR '']'') level)"
    by (intro split_key_cross) simp_all
next
  show "contains_T_dot (g @ ''[T.'' @ level @ '']'')" by (rule contains_T_dot_marker)
next
  assume "CHR ''.'' \<notin> set g \<union> set level \<and> CHR '':'' \<notin> set g"
  then show "split_key (g @ ''[T.'' @ level @ '']'')
        = Inr (''baseline'', rstrip (\<lambda>c. c = CHR '']'') level)"
    by (intro split_key_main) simp_all
next
  assume "level = [] \<or> last level \<noteq> CHR '']''"
  then show "rstrip (\<lambda>c. c = CHR '']'') level = level" by (intro rstrip_id) simp
qed

theorem pcnt_change_rows_witness:
  "split_key ''step2:group_0[T.Recorded autism]'' = Inr (''step2'', ''Recorded autism'') \<and>
   split_key ''group_0[T.Recorded autism]'' = Inr (''baseline'', ''Recorded autism'') \<and>
   contains_T_dot ''step2:group_0[T.Recorded autism]'' \<and>
   contains_T_dot ''group_0[T.Recorded autism]'' \<and>
   \<not> contains_T_dot ''Intercept''"
proof -
  note t = pcnt_change_rows [of ex_round ex_group_model "''autism''" "[]" "''Intercept''"
      "''step2''" "''group_0''" "''Recorded autism''"]
  have h1: "CHR ''.'' \<notin> set ''step2'' \<union> set ''group_0'' \<union> set ''Recorded autism''
      \<and> CHR '':'' \<notin> set ''step2''" by simp
  have h2: "CHR ''.'' \<notin> set ''group_0'' \<union> set ''Recorded autism'' \<and> CHR '':'' \<notin> set ''group_0''"
    by simp
  have h3: "''Recorded autism'' = [] \<or> last ''Recorded autism'' \<noteq> CHR '']''" by simp
  have h4: "CHR ''T'' \<notin> set ''Intercept''" by simp
  from t h3 have r: "rstrip (\<lambda>c. c = CHR '']'') ''Recorded autism'' = ''Recorded autism''"
    by blast
  from t h1 have a: "contains_T_dot (''step2'' @ '':'' @ ''group_0'' @ ''[T.'' @ ''Recorded autism'' @ '']'') \<and>
      split_key (''step2'' @ '':'' @ ''group_0'' @ ''[T.'' @ ''Recorded autism'' @ '']'')
        = Inr (''step2'', rstrip (\<lambda>c. c = CHR '']'') ''Recorded autism'')" by blast
  from t h2 have b: "contains_T_dot (''group_0'' @ ''[T.'' @ ''Recorded autism'' @ '']'') \<and>
      split_key (''group_0'' @ ''[T.'' @ ''Recorded autism'' @ '']'')
        = Inr (''baseline'', rstrip (\<lambda>c. c = CHR '']'') ''Recorded autism'')" by blast
  from t h4 have c: "\<not> contains_T_dot ''Intercept''" by blast
  from a b c show ?thesis unfolding r by simp
qed

section \<open>Properties of the specification builder\<close>

lemma set_unique [simp]: "set (unique xs) = set xs"
  by (simp add: unique_def)

lemma distinct_unique [simp]: "distinct (unique xs)"
  by (simp add: unique_def)

lemma remove1_filter_distinct:
  "distinct xs \<Longrightarrow> remove1 x xs = filter (\<lambda>y. y \<noteq> x) xs"
proof (induction xs)
  case Nil
  then show ?case by simp
next
  case (Cons a xs)
  show ?case
  proof (cases "a = x")
    case True
    with Cons.prems have "x \<notin> set xs" by simp
    then have "filter (\<lambda>y. y \<noteq> x) xs = xs" by (auto simp: filter_id_conv)
    with True show ?thesis by simp
  next
    case False
    with Cons show ?thesis by simp
  qed
qed

lemma interact_ok:
  assumes "df g = Some col" and "Some r \<in> set (col_values col)"
    and "None \<notin> set (col_values col)"
  shows "interact df formula g (Some r) =
           Inr (formula @ ''+ step*'' @ g @ '' + slope*'' @ g @ '' + step2*'' @ g
                  @ '' + slope2*'' @ g,
                df(g \<mapsto> col\<lparr>categories :=
                     Some (r # filter (\<lambda>x. x \<noteq> r)
                       (List.map_filter id (unique (col_values col))))\<rparr>))"
proof -
  let ?u = "unique (col_values col)"
  have n: "None \<notin> set (remove1 (Some r) ?u)"
    using assms(3) by (auto dest: notin_set_remove1)
  have "List.map_filter id (remove1 (Some r) ?u)
          = filter (\<lambda>x. x \<noteq> r) (List.map_filter id ?u)"
  proof -
    have "remove1 (Some r) ?u = filter (\<lambda>y. y \<noteq> Some r) ?u"
      by (rule remove1_filter_distinct) simp
    moreover have "List.map_filter id (filter (\<lambda>y. y \<noteq> Some r) zs)
          = filter (\<lambda>x. x \<noteq> r) (List.map_filter id zs)" for zs :: "'a option list"
      by (induction zs) (auto split: option.splits)
    ultimately show ?thesis by simp
  qed
  then show ?thesis
    using assms n by (simp add: interact_def Let_def)
qed
lemma split_on_prefix:
  "sep \<notin> set a \<Longrightarrow>
     split_on sep (a @ b) = (a @ hd (split_on sep b)) # tl (split_on sep b)"
proof (induction a)
  case Nil
  then show ?case by (cases "split_on sep b") simp_all
next
  case (Cons c a)
  then have "c \<noteq> sep" and "split_on sep (a @ b) = (a @ hd (split_on sep b)) # tl (split_on sep b)"
    by auto
  then show ?case by simp
qed

lemma strip_spaces_word:
  assumes "w \<noteq> []" "CHR '' '' \<notin> set w"
  shows "strip (\<lambda>c. c = CHR '' '') (replicate m CHR '' '' @ w @ replicate n CHR '' '') = w"
proof -
  let ?P = "\<lambda>c. c = CHR '' ''"
  have l: "\<not> ?P (last w)" and h: "\<not> ?P (hd w)" using assms by (metis last_in_set, metis hd_in_set)
  have "rstrip ?P (replicate m CHR '' '' @ w @ replicate n CHR '' '') = replicate m CHR '' '' @ w"
  proof -
    have "rev (replicate m CHR '' '' @ w @ replicate n CHR '' '')
        = replicate n CHR '' '' @ (rev w @ replicate m CHR '' '')" by simp
    moreover have "dropWhile ?P (replicate n CHR '' '' @ (rev w @ replicate m CHR '' ''))
        = dropWhile ?P (rev w @ replicate m CHR '' '')"
      by (rule dropWhile_append2) simp
    moreover have "dropWhile ?P (rev w @ replicate m CHR '' '') = rev w @ replicate m CHR '' ''"
      using assms l by (cases w rule: rev_cases) simp_all
    ultimately show ?thesis by (simp add: rstrip_def)
  qed
  moreover have "dropWhile ?P (replicate m CHR '' '' @ w) = dropWhile ?P w"
    by (rule dropWhile_append2) simp
  moreover have "dropWhile ?P w = w" using assms h by (cases w) simp_all
  ultimately show ?thesis by (simp add: strip_def)
qed

lemma strip1: "w \<noteq> [] \<Longrightarrow> CHR '' '' \<notin> set w \<Longrightarrow> strip (\<lambda>c. c = CHR '' '') (CHR '' '' # w @ '' '') = w"
  using strip_spaces_word [of w 1 1] by simp

lemma strip2: "w \<noteq> [] \<Longrightarrow> CHR '' '' \<notin> set w \<Longrightarrow> strip (\<lambda>c. c = CHR '' '') (CHR '' '' # w) = w"
  using strip_spaces_word [of w 1 0] by simp

lemma formula_terms_base:
  "formula_terms ''numerator ~ time + step + slope + mar20 + april20 + step2 + slope2''
     = [''time'', ''step'', ''slope'', ''mar20'', ''april20'', ''step2'', ''slope2'']"
  by (simp add: formula_terms_def strip_def rstrip_def)

lemma formula_terms_harmonic:
  "formula_terms (''numerator ~ time + step + slope + mar20 + april20 + step2 + slope2''
       @ ''+ '' @ join ''+'' [''s1'', ''c1''])
     = [''time'', ''step'', ''slope'', ''mar20'', ''april20'', ''step2'', ''slope2'',
        ''s1'', ''c1'']"
  by (simp add: formula_terms_def strip_def rstrip_def)

lemma strip_literals:
  "strip (\<lambda>c. c = CHR '' '') '' time '' = ''time''"
  "strip (\<lambda>c. c = CHR '' '') '' step '' = ''step''"
  "strip (\<lambda>c. c = CHR '' '') '' slope '' = ''slope''"
  "strip (\<lambda>c. c = CHR '' '') '' mar20 '' = ''mar20''"
  "strip (\<lambda>c. c = CHR '' '') '' april20 '' = ''april20''"
  "strip (\<lambda>c. c = CHR '' '') '' step2 '' = ''step2''"
  "strip (\<lambda>c. c = CHR '' '') '' slope2'' = ''slope2''"
  "strip (\<lambda>c. c = CHR '' '') '' s1'' = ''s1''"
  "strip (\<lambda>c. c = CHR '' '') ''c1'' = ''c1''"
  by (simp_all add: strip_def rstrip_def)

lemma strip_interactions:
  assumes "CHR '' '' \<notin> set g"
  shows "strip (\<lambda>c. c = CHR '' '') (CHR '' '' # (''step*'' @ g) @ '' '') = ''step*'' @ g"
    and "strip (\<lambda>c. c = CHR '' '') (CHR '' '' # (''slope*'' @ g) @ '' '') = ''slope*'' @ g"
    and "strip (\<lambda>c. c = CHR '' '') (CHR '' '' # (''step2*'' @ g) @ '' '') = ''step2*'' @ g"
    and "strip (\<lambda>c. c = CHR '' '') (CHR '' '' # (''slope2*'' @ g)) = ''slope2*'' @ g"
proof -
  show "strip (\<lambda>c. c = CHR '' '') (CHR '' '' # (''step*'' @ g) @ '' '') = ''step*'' @ g"
    by (rule strip1) (use assms in simp_all)
  show "strip (\<lambda>c. c = CHR '' '') (CHR '' '' # (''slope*'' @ g) @ '' '') = ''slope*'' @ g"
    by (rule strip1) (use assms in simp_all)
  show "strip (\<lambda>c. c = CHR '' '') (CHR '' '' # (''step2*'' @ g) @ '' '') = ''step2*'' @ g"
    by (rule strip1) (use assms in simp_all)
  show "strip (\<lambda>c. c = CHR '' '') (CHR '' '' # (''slope2*'' @ g)) = ''slope2*'' @ g"
    by (rule strip2) (use assms in simp_all)
qed

lemma formula_terms_interact:
  assumes "CHR ''+'' \<notin> set g" "CHR '' '' \<notin> set g"
  shows "formula_terms (''numerator ~ time + step + slope + mar20 + april20 + step2 + slope2''
            @ ''+ step*'' @ g @ '' + slope*'' @ g @ '' + step2*'' @ g @ '' + slope2*'' @ g)
         = [''time'', ''step'', ''slope'', ''mar20'', ''april20'', ''step2'', ''slope2'',
            ''step*'' @ g, ''slope*'' @ g, ''step2*'' @ g, ''slope2*'' @ g]"
proof -
  have s: "split_on CHR ''+'' (drop 1 (dropWhile (\<lambda>c. c \<noteq> CHR ''~'')
          (''numerator ~ time + step + slope + mar20 + april20 + step2 + slope2''
            @ ''+ step*'' @ g @ '' + slope*'' @ g @ '' + step2*'' @ g @ '' + slope2*'' @ g)))
        = ['' time '', '' step '', '' slope '', '' mar20 '', '' april20 '', '' step2 '', '' slope2'',
           CHR '' '' # (''step*'' @ g) @ '' '', CHR '' '' # (''slope*'' @ g) @ '' '',
           CHR '' '' # (''step2*'' @ g) @ '' '', CHR '' '' # (''slope2*'' @ g)]"
    using assms(1) by (simp add: split_on_prefix split_on_no_sep)
  show ?thesis
    by (simp only: formula_terms_def s list.map strip_literals strip_interactions [OF assms(2)])
qed

lemma formula_terms_full:
  assumes "CHR ''+'' \<notin> set g" "CHR '' '' \<notin> set g"
  shows "formula_terms (''numerator ~ time + step + slope + mar20 + april20 + step2 + slope2''
            @ ''+ step*'' @ g @ '' + slope*'' @ g @ '' + step2*'' @ g @ '' + slope2*'' @ g
            @ ''+ '' @ join ''+'' [''s1'', ''c1''])
         = [''time'', ''step'', ''slope'', ''mar20'', ''april20'', ''step2'', ''slope2'',
            ''step*'' @ g, ''slope*'' @ g, ''step2*'' @ g, ''slope2*'' @ g, ''s1'', ''c1'']"
proof -
  have s: "split_on CHR ''+'' (drop 1 (dropWhile (\<lambda>c. c \<noteq> CHR ''~'')
          (''numerator ~ time + step + slope + mar20 + april20 + step2 + slope2''
            @ ''+ step*'' @ g @ '' + slope*'' @ g @ '' + step2*'' @ g @ '' + slope2*'' @ g
            @ ''+ '' @ join ''+'' [''s1'', ''c1''])))
        = ['' time '', '' step '', '' slope '', '' mar20 '', '' april20 '', '' step2 '', '' slope2'',
           CHR '' '' # (''step*'' @ g) @ '' '', CHR '' '' # (''slope*'' @ g) @ '' '',
           CHR '' '' # (''step2*'' @ g) @ '' '', CHR '' '' # (''slope2*'' @ g), '' s1'', ''c1'']"
    using assms(1) by (simp add: split_on_prefix)
  show ?thesis
    by (simp only: formula_terms_def s list.map strip_literals strip_interactions [OF assms(2)])
qed

lemma set_map_filter_id: "set (List.map_filter id xs) = {v. Some v \<in> set xs}"
  by (induction xs) (auto split: option.splits)

lemma distinct_map_filter_id: "distinct xs \<Longrightarrow> distinct (List.map_filter id xs)"
  by (induction xs) (auto simp: set_map_filter_id split: option.splits)

lemma interact_missing:
  assumes "df g = Some col" and "Some r \<notin> set (col_values col)"
  shows "interact df formula g (Some r) = Inl (ValueError ''list.remove(x): x not in list'')"
  using assms by (simp add: interact_def Let_def)

text \<open>
  Claim C6. Without a grouping column the formula is the base formula, whose terms are
  \<^verbatim>\<open>time, step, slope, mar20, april20, step2, slope2\<close> in that order; with the harmonic
  terms, \<^verbatim>\<open>s1\<close> and \<^verbatim>\<open>c1\<close> follow them. With a grouping column whose values are all
  present and include the reference, the function returns the base terms followed by
  \<^verbatim>\<open>step*g, slope*g, step2*g, slope2*g\<close> and then, when asked for, by \<^verbatim>\<open>s1\<close> and \<^verbatim>\<open>c1\<close>
  on their own; the column's categories become the observed values with the reference
  first and the others in their order of first appearance. A reference that is not an
  observed value raises ValueError.
\<close>

theorem get_formula_terms:
  "get_formula df None None reference
     = Inr (''numerator ~ time + step + slope + mar20 + april20 + step2 + slope2'', df) \<and>
   get_formula df (Some [''s1'', ''c1'']) None reference
     = Inr (''numerator ~ time + step + slope + mar20 + april20 + step2 + slope2+ s1+c1'', df) \<and>
   formula_terms ''numerator ~ time + step + slope + mar20 + april20 + step2 + slope2''
     = [''time'', ''step'', ''slope'', ''mar20'', ''april20'', ''step2'', ''slope2''] \<and>
   formula_terms ''numerator ~ time + step + slope + mar20 + april20 + step2 + slope2+ s1+c1''
     = [''time'', ''step'', ''slope'', ''mar20'', ''april20'', ''step2'', ''slope2'',
        ''s1'', ''c1''] \<and>
   (df g = Some col \<and> Some r \<in> set (col_values col) \<and> None \<notin> set (col_values col) \<longrightarrow>
      (\<exists>levels f.
         get_formula df None (Some g) (Some r)
           = Inr (f, df(g \<mapsto> col\<lparr>categories := Some levels\<rparr>)) \<and>
         get_formula df (Some [''s1'', ''c1'']) (Some g) (Some r)
           = Inr (f @ ''+ s1+c1'', df(g \<mapsto> col\<lparr>categories := Some levels\<rparr>)) \<and>
         f = ''numerator ~ time + step + slope + mar20 + april20 + step2 + slope2''
               @ ''+ step*'' @ g @ '' + slope*'' @ g @ '' + step2*'' @ g @ '' + slope2*'' @ g \<and>
         levels ! 0 = r \<and>
         distinct levels \<and>
         set levels = {v. Some v \<in> set (col_values col)} \<and>
         filter (\<lambda>x. x \<noteq> r) levels
           = filter (\<lambda>x. x \<noteq> r) (List.map_filter id (unique (col_values col))) \<and>
         (CHR ''+'' \<notin> set g \<and> CHR '' '' \<notin> set g \<longrightarrow>
            formula_terms f
              = [''time'', ''step'', ''slope'', ''mar20'', ''april20'', ''step2'', ''slope2'',
                 ''step*'' @ g, ''slope*'' @ g, ''step2*'' @ g, ''slope2*'' @ g] \<and>
            formula_terms (f @ ''+ s1+c1'')
              = [''time'', ''step'', ''slope'', ''mar20'', ''april20'', ''step2'', ''slope2'',
                 ''step*'' @ g, ''slope*'' @ g, ''step2*'' @ g, ''slope2*'' @ g,
                 ''s1'', ''c1'']))) \<and>
   (df g = Some col \<and> Some r \<notin> set (col_values col) \<longrightarrow>
      get_formula df fourier_terms (Some g) (Some r)
        = Inl (ValueError ''list.remove(x): x not in list''))"
proof (intro conjI impI)
  show "get_formula df None None reference
     = Inr (''numerator ~ time + step + slope + mar20 + april20 + step2 + slope2'', df)"
    by (simp add: get_formula_def)
  show "get_formula df (Some [''s1'', ''c1'']) None reference
     = Inr (''numerator ~ time + step + slope + mar20 + april20 + step2 + slope2+ s1+c1'', df)"
    by (simp add: get_formula_def)
  show "formula_terms ''numerator ~ time + step + slope + mar20 + april20 + step2 + slope2''
     = [''time'', ''step'', ''slope'', ''mar20'', ''april20'', ''step2'', ''slope2'']"
    by (rule formula_terms_base)
  show "formula_terms ''numerator ~ time + step + slope + mar20 + april20 + step2 + slope2+ s1+c1''
     = [''time'', ''step'', ''slope'', ''mar20'', ''april20'', ''step2'', ''slope2'',
        ''s1'', ''c1'']"
    using formula_terms_harmonic by simp
next
  assume a: "df g = Some col \<and> Some r \<notin> set (col_values col)"
  then have a1: "df g = Some col" and a2: "Some r \<notin> set (col_values col)" by simp_all
  have "interact df ''numerator ~ time + step + slope + mar20 + april20 + step2 + slope2''
      g (Some r) = Inl (ValueError ''list.remove(x): x not in list'')"
    by (rule interact_missing [where df = df and g = g, OF a1 a2])
  then show "get_formula df fourier_terms (Some g) (Some r)
        = Inl (ValueError ''list.remove(x): x not in list'')"
    by (simp add: get_formula_def)
next
  assume a: "df g = Some col \<and> Some r \<in> set (col_values col) \<and> None \<notin> set (col_values col)"
  define f where "f = ''numerator ~ time + step + slope + mar20 + april20 + step2 + slope2''
               @ ''+ step*'' @ g @ '' + slope*'' @ g @ '' + step2*'' @ g @ '' + slope2*'' @ g"
  define obs where "obs = List.map_filter id (unique (col_values col))"
  define levels where "levels = r # filter (\<lambda>x. x \<noteq> r) obs"
  from a have a1: "df g = Some col" and a2: "Some r \<in> set (col_values col)"
    and a3: "None \<notin> set (col_values col)" by simp_all
  have i: "interact df ''numerator ~ time + step + slope + mar20 + april20 + step2 + slope2''
      g (Some r) = Inr (f, df(g \<mapsto> col\<lparr>categories := Some levels\<rparr>))"
    unfolding f_def levels_def obs_def by (rule interact_ok [where df = df and g = g, OF a1 a2 a3])
  have g1: "get_formula df None (Some g) (Some r)
           = Inr (f, df(g \<mapsto> col\<lparr>categories := Some levels\<rparr>))"
    using i by (simp add: get_formula_def)
  have g2: "get_formula df (Some [''s1'', ''c1'']) (Some g) (Some r)
           = Inr (f @ ''+ s1+c1'', df(g \<mapsto> col\<lparr>categories := Some levels\<rparr>))"
    using i by (simp add: get_formula_def)
  have so: "set obs = {v. Some v \<in> set (col_values col)}"
    by (simp add: obs_def set_map_filter_id)
  have d: "distinct levels"
    by (simp add: levels_def obs_def distinct_map_filter_id)
  have s: "set levels = {v. Some v \<in> set (col_values col)}"
    using a so by (auto simp: levels_def)
  have fl: "filter (\<lambda>x. x \<noteq> r) levels = filter (\<lambda>x. x \<noteq> r) obs"
    by (simp add: levels_def)
  have ft: "formula_terms f
              = [''time'', ''step'', ''slope'', ''mar20'', ''april20'', ''step2'', ''slope2'',
                 ''step*'' @ g, ''slope*'' @ g, ''step2*'' @ g, ''slope2*'' @ g] \<and>
            formula_terms (f @ ''+ s1+c1'')
              = [''time'', ''step'', ''slope'', ''mar20'', ''april20'', ''step2'', ''slope2'',
                 ''step*'' @ g, ''slope*'' @ g, ''step2*'' @ g, ''slope2*'' @ g,
                 ''s1'', ''c1'']"
    if "CHR ''+'' \<notin> set g \<and> CHR '' '' \<notin> set g"
  proof -
    from that have p: "CHR ''+'' \<notin> set g" and q: "CHR '' '' \<notin> set g" by simp_all
    from formula_terms_interact [OF p q] formula_terms_full [OF p q]
    show ?thesis unfolding f_def by simp
  qed
  have l0: "levels ! 0 = r" by (simp add: levels_def)
  from g1 g2 l0 d s fl ft
  show "\<exists>levels f.
         get_formula df None (Some g) (Some r)
           = Inr (f, df(g \<mapsto> col\<lparr>categories := Some levels\<rparr>)) \<and>
         get_formula df (Some [''s1'', ''c1'']) (Some g) (Some r)
           = Inr (f @ ''+ s1+c1'', df(g \<mapsto> col\<lparr>categories := Some levels\<rparr>)) \<and>
         f = ''numerator ~ time + step + slope + mar20 + april20 + step2 + slope2''
               @ ''+ step*'' @ g @ '' + slope*'' @ g @ '' + step2*'' @ g @ '' + slope2*'' @ g \<and>
         levels ! 0 = r \<and>
         distinct levels \<and>
         set levels = {v. Some v \<in> set (col_values col)} \<and>
         filter (\<lambda>x. x \<noteq> r) levels
           = filter (\<lambda>x. x \<noteq> r) (List.map_filter id (unique (col_values col))) \<and>
         (CHR ''+'' \<notin> set g \<and> CHR '' '' \<notin> set g \<longrightarrow>
            formula_terms f
              = [''time'', ''step'', ''slope'', ''mar20'', ''april20'', ''step2'', ''slope2'',
                 ''step*'' @ g, ''slope*'' @ g, ''step2*'' @ g, ''slope2*'' @ g] \<and>
            formula_terms (f @ ''+ s1+c1'')
              = [''time'', ''step'', ''slope'', ''mar20'', ''april20'', ''step2'', ''slope2'',
                 ''step*'' @ g, ''slope*'' @ g, ''step2*'' @ g, ''slope2*'' @ g,
                 ''s1'', ''c1''])"
    unfolding obs_def [symmetric] f_def [symmetric]
    by (intro exI [of _ levels] exI [of _ f] conjI impI) (simp_all add: f_def)
qed

theorem get_formula_terms_witness:
  "\<exists>levels.
     get_formula ex_frame (Some [''s1'', ''c1'']) (Some ''group_0'') (Some ''C'')
       = Inr (''numerator ~ time + step + slope + mar20 + april20 + step2 + slope2+ step*group_0 + slope*group_0 + step2*group_0 + slope2*group_0+ s1+c1'',
              ex_frame(''group_0'' \<mapsto>
                \<lparr>col_values = [Some ''B'', Some ''A'', Some ''B'', Some ''C'', Some ''A''],
                 categories = Some levels\<rparr>)) \<and>
     levels ! 0 = ''C'' \<and> filter (\<lambda>x. x \<noteq> ''C'') levels = [''B'', ''A''] \<and>
     formula_terms ''numerator ~ time + step + slope + mar20 + april20 + step2 + slope2+ step*group_0 + slope*group_0 + step2*group_0 + slope2*group_0+ s1+c1''
       = [''time'', ''step'', ''slope'', ''mar20'', ''april20'', ''step2'', ''slope2'',
          ''step*group_0'', ''slope*group_0'', ''step2*group_0'', ''slope2*group_0'',
          ''s1'', ''c1'']"
proof -
  let ?col = "\<lparr>col_values = [Some ''B'', Some ''A'', Some ''B'', Some ''C'', Some ''A''],
                 categories = None :: string list option\<rparr>"
  have h: "ex_frame ''group_0'' = Some ?col \<and> Some ''C'' \<in> set (col_values ?col) \<and>
      None \<notin> set (col_values ?col)"
    by (simp add: ex_frame_def)
  have n: "CHR ''+'' \<notin> set ''group_0'' \<and> CHR '' '' \<notin> set ''group_0''" by simp
  have u: "List.map_filter id (unique (col_values ?col)) = [''B'', ''A'', ''C'']"
    by (simp add: unique_def List.map_filter_simps)
  from get_formula_terms [of ex_frame None "''group_0''" ?col "''C''" None] h
  obtain levels f where
    g2: "get_formula ex_frame (Some [''s1'', ''c1'']) (Some ''group_0'') (Some ''C'')
           = Inr (f @ ''+ s1+c1'', ex_frame(''group_0'' \<mapsto> ?col\<lparr>categories := Some levels\<rparr>))"
    and f: "f = ''numerator ~ time + step + slope + mar20 + april20 + step2 + slope2''
               @ ''+ step*'' @ ''group_0'' @ '' + slope*'' @ ''group_0'' @ '' + step2*''
               @ ''group_0'' @ '' + slope2*'' @ ''group_0''"
    and l0: "levels ! 0 = ''C''"
    and fl: "filter (\<lambda>x. x \<noteq> ''C'') levels
           = filter (\<lambda>x. x \<noteq> ''C'') (List.map_filter id (unique (col_values ?col)))"
    and ft: "CHR ''+'' \<notin> set ''group_0'' \<and> CHR '' '' \<notin> set ''group_0'' \<longrightarrow>
            formula_terms f
              = [''time'', ''step'', ''slope'', ''mar20'', ''april20'', ''step2'', ''slope2'',
                 ''step*'' @ ''group_0'', ''slope*'' @ ''group_0'', ''step2*'' @ ''group_0'',
                 ''slope2*'' @ ''group_0''] \<and>
            formula_terms (f @ ''+ s1+c1'')
              = [''time'', ''step'', ''slope'', ''mar20'', ''april20'', ''step2'', ''slope2'',
                 ''step*'' @ ''group_0'', ''slope*'' @ ''group_0'', ''step2*'' @ ''group_0'',
                 ''slope2*'' @ ''group_0'', ''s1'', ''c1'']"
    by blast
  from fl have fl': "filter (\<lambda>x. x \<noteq> ''C'') levels = [''B'', ''A'']"
    unfolding u by simp
  from ft n have "formula_terms (f @ ''+ s1+c1'')
              = [''time'', ''step'', ''slope'', ''mar20'', ''april20'', ''step2'', ''slope2'',
                 ''step*'' @ ''group_0'', ''slope*'' @ ''group_0'', ''step2*'' @ ''group_0'',
                 ''slope2*'' @ ''group_0'', ''s1'', ''c1'']" by blast
  with g2 l0 fl' show ?thesis
    unfolding f by (intro exI [of _ levels]) simp
qed

section \<open>Properties of the flag relabelling\<close>

lemma py_int_ex: "py_int ''1'' = Inr 1" "py_int ''0'' = Inr 0" "py_int '' -1_0 '' = Inr (-10)"
  "py_int ''1.0'' = Inl (ValueError ''invalid literal for int() with base 10'')"
  by (simp_all add: py_int_def strip_def rstrip_def py_isspace_def is_digit_def digits_val_def)


text \<open>
  Claim C4, evaluated on a flag column of the strings \<^verbatim>\<open>"1"\<close> and \<^verbatim>\<open>"0"\<close> paired with
  the category \<^verbatim>\<open>autism\<close>, and on the same flags held as numbers. The claim says the
  two levels are \<^verbatim>\<open>Recorded autism\<close> and \<^verbatim>\<open>No recorded autism\<close>. The code labels the string
  flag \<^verbatim>\<open>"1"\<close> as \<^verbatim>\<open>Recored autism\<close>, and labels every numeric flag, the flag 1 too, as
  \<^verbatim>\<open>No recorded autism\<close>, since a number never equals the string \<^verbatim>\<open>"1"\<close>. The relabelling
  does come before the reference handling of \<^verbatim>\<open>get_formula\<close>: on the relabelled column
  the reference \<^verbatim>\<open>Recorded autism\<close> is not an observed level and raises ValueError, and
  the reference \<^verbatim>\<open>No recorded autism\<close> gives the levels \<^verbatim>\<open>No recorded autism\<close>,
  \<^verbatim>\<open>Recored autism\<close>.
\<close>

theorem relabel_misspelled:
  "interaction_category_of ''group_0'' = ''category_0'' \<and>
   is_bool_as_int (ObjSeries [Str ''1'', Str ''0'']) \<and>
   relabel (ObjSeries [Str ''1'', Str ''0'']) [''autism'', ''autism'']
     = ObjSeries [Str ''Recored autism'', Str ''No recorded autism''] \<and>
   is_bool_as_int (NumSeries [Some 1, Some 0]) \<and>
   relabel (NumSeries [Some 1, Some 0]) [''autism'', ''autism'']
     = ObjSeries [Str ''No recorded autism'', Str ''No recorded autism''] \<and>
   get_model_formula (ObjSeries [Str ''1'', Str ''0'']) [''autism'', ''autism''] ''group_0''
       (Some (Str ''Recorded autism''))
     = Inl (ValueError ''list.remove(x): x not in list'') \<and>
   map_sum id (\<lambda>(f, d). map_option categories (d ''group_0''))
       (get_model_formula (ObjSeries [Str ''1'', Str ''0'']) [''autism'', ''autism''] ''group_0''
          (Some (Str ''No recorded autism'')))
     = Inr (Some (Some [Str ''No recorded autism'', Str ''Recored autism'']))"
proof -
  have r: "relabel (ObjSeries [Str ''1'', Str ''0'']) [''autism'', ''autism'']
     = ObjSeries [Str ''Recored autism'', Str ''No recorded autism'']"
    by (simp add: relabel_def is_bool_as_int_def cell_to_int_def py_int_ex cells_of_def)
  have c: "column_of (ObjSeries [Str ''Recored autism'', Str ''No recorded autism''])
     = \<lparr>col_values = [Some (Str ''Recored autism''), Some (Str ''No recorded autism'')],
        categories = None\<rparr>"
    by (simp add: column_of_def cells_of_def)
  show ?thesis
    unfolding get_model_formula_def r c
    by (simp add: relabel_def is_bool_as_int_def cell_to_int_def py_int_ex cells_of_def
        interaction_category_of_def get_formula_def interact_def unique_def Let_def
        List.map_filter_simps)
qed

end
